theory Spec2Isabelle
  imports Complex_Main
begin

section \<open>JavaScript values and the host functions the program calls\<close>

text \<open>
  The program is \<open>script.js\<close>, a spreadsheet in the browser. Its functions are translated
  one by one; the built-in functions they call are modelled in this section. The
  repository holds a second copy of the script, which differs in \<open>evaluateFormula\<close> only;
  that function is translated from both.

  \<^item> Text is modelled as ASCII \<open>string\<close>s; \<open>String.fromCharCode\<close> and \<open>charCodeAt\<close> are
    \<open>char_of\<close> and \<open>of_char\<close>. Case mapping and white space beyond ASCII are outside the
    model, so statements that name the exact text stored assume ASCII input.
  \<^item> Numbers used as counters (column counts, row numbers) are unbounded naturals or
    integers, exact below \<open>2^53\<close>. Numbers that are cell values are \<open>jsnum\<close>: \<open>NaN\<close>, the
    two infinities and the finite numbers, taken as exact rationals. Rounding to a
    double, overflow and the sign of zero are not modelled.
  \<^item> A value is one of the primitive values below. Objects, symbols and big integers
    are not modelled.
  \<^item> An uncaught \<open>TypeError\<close> (\<open>null[0]\<close>, a property of \<open>undefined\<close>) is the error value
    \<open>TypeError\<close>.
\<close>

datatype jsnum = NaN | PInf | NInf | Fin rat

datatype jsval = Undefined | Null | Bool bool | Num jsnum | Str string

datatype error = TypeError

definition charCodeOffset :: nat where
  "charCodeOffset = 65"

definition fromCharCode :: "nat \<Rightarrow> char" where
  "fromCharCode n = char_of n"

text \<open>\<open>s.charCodeAt(0)\<close>; \<open>None\<close> stands for the \<open>NaN\<close> an empty string gives.\<close>

definition charCodeAt0 :: "string \<Rightarrow> nat option" where
  "charCodeAt0 s = (case s of [] \<Rightarrow> None | c # _ \<Rightarrow> Some (of_char c))"

definition isAscii :: "string \<Rightarrow> bool" where
  "isAscii s = list_all (\<lambda>c. (of_char c :: nat) < 128) s"

text \<open>The character classes \<open>\d\<close>, \<open>[A-Z]\<close> and \<open>[a-z]\<close>, and ASCII white space.\<close>

definition isDigit :: "char \<Rightarrow> bool" where
  "isDigit c = (48 \<le> (of_char c :: nat) \<and> (of_char c :: nat) \<le> 57)"

definition isUpper :: "char \<Rightarrow> bool" where
  "isUpper c = (65 \<le> (of_char c :: nat) \<and> (of_char c :: nat) \<le> 90)"

definition isLower :: "char \<Rightarrow> bool" where
  "isLower c = (97 \<le> (of_char c :: nat) \<and> (of_char c :: nat) \<le> 122)"

definition isWhiteSpace :: "char \<Rightarrow> bool" where
  "isWhiteSpace c = ((of_char c :: nat) \<in> {9, 10, 11, 12, 13, 32})"

subsection \<open>String methods\<close>

definition trim :: "string \<Rightarrow> string" where
  "trim s = rev (dropWhile isWhiteSpace (rev (dropWhile isWhiteSpace s)))"

definition toUpperCase :: "string \<Rightarrow> string" where
  "toUpperCase s = map (\<lambda>c. if isLower c then char_of ((of_char c :: nat) - 32) else c) s"

definition startsWith :: "string \<Rightarrow> string \<Rightarrow> bool" where
  "startsWith s t = (take (length t) s = t)"

text \<open>\<open>s.substring(1)\<close>.\<close>

definition substring1 :: "string \<Rightarrow> string" where
  "substring1 s = drop 1 s"

text \<open>\<open>s.includes(t)\<close>: \<open>t\<close> occurs in \<open>s\<close> as a substring.\<close>

fun str_includes :: "string \<Rightarrow> string \<Rightarrow> bool" where
  "str_includes [] t = (t = [])"
| "str_includes (c # s) t = (startsWith (c # s) t \<or> str_includes s t)"

text \<open>
  \<open>s.replace(searchString, replaceValue)\<close> with a string pattern replaces the first
  occurrence only. \<open>indexOf_split\<close> cuts \<open>s\<close> at that occurrence; \<open>getSubstitution\<close> expands
  the patterns of the replacement text: a dollar sign followed by a dollar sign, an
  ampersand, a backquote or a quote stands for a dollar sign, the matched text, the
  text before it and the text after it (there are no capture groups, so every other
  dollar sign stands for itself).
\<close>

fun indexOf_split :: "string \<Rightarrow> string \<Rightarrow> (string \<times> string) option" where
  "indexOf_split [] t = (if t = [] then Some ([], []) else None)"
| "indexOf_split (c # s) t =
     (if startsWith (c # s) t then Some ([], drop (length t) (c # s))
      else map_option (\<lambda>(pre, post). (c # pre, post)) (indexOf_split s t))"

fun getSubstitution :: "string \<Rightarrow> string \<Rightarrow> string \<Rightarrow> string \<Rightarrow> string" where
  "getSubstitution matched pre post [] = []"
| "getSubstitution matched pre post [c] = [c]"
| "getSubstitution matched pre post (c # d # r) =
     (if c = CHR ''$'' \<and> d = CHR ''$'' then CHR ''$'' # getSubstitution matched pre post r
      else if c = CHR ''$'' \<and> d = CHR ''&'' then matched @ getSubstitution matched pre post r
      else if c = CHR ''$'' \<and> d = CHR 0x60 then pre @ getSubstitution matched pre post r
      else if c = CHR ''$'' \<and> d = CHR 0x27 then post @ getSubstitution matched pre post r
      else c # getSubstitution matched pre post (d # r))"

definition replace :: "string \<Rightarrow> string \<Rightarrow> string \<Rightarrow> string" where
  "replace s searchString replaceValue =
     (case indexOf_split s searchString of
        None \<Rightarrow> s
      | Some (pre, post) \<Rightarrow>
          pre @ getSubstitution searchString pre post replaceValue @ post)"

text \<open>\<open>s.split(sep)\<close> for a separator of one character.\<close>

fun split_on :: "char \<Rightarrow> string \<Rightarrow> string list" where
  "split_on sep [] = [] # []"
| "split_on sep (c # s) =
     (if c = sep then [] # split_on sep s
      else (case split_on sep s of [] \<Rightarrow> [c] # [] | piece # pieces \<Rightarrow> (c # piece) # pieces))"

subsection \<open>Numbers and their text\<close>

text \<open>
  \<open>parseInt\<close> on a run of decimal digits (the program only calls it on a match of
  \<open>\d+\<close>), and the decimal text of a natural number, which is what \<open>letter + row\<close> appends.
\<close>

definition digit_value :: "char \<Rightarrow> nat" where
  "digit_value c = of_char c - 48"

definition parseInt :: "string \<Rightarrow> nat" where
  "parseInt ds = foldl (\<lambda>n c. 10 * n + digit_value c) 0 ds"

function digits_of :: "nat \<Rightarrow> string" where
  "digits_of n =
     (if n < 10 then [char_of (48 + n)]
      else digits_of (n div 10) @ [char_of (48 + n mod 10)])"
  by pat_completeness auto
termination
  by (relation "measure id") auto

declare digits_of.simps [simp del]

text \<open>The \<open>+\<close> of two numbers.\<close>

fun num_add :: "jsnum \<Rightarrow> jsnum \<Rightarrow> jsnum" where
  "num_add NaN y = NaN"
| "num_add x NaN = NaN"
| "num_add PInf NInf = NaN"
| "num_add NInf PInf = NaN"
| "num_add PInf y = PInf"
| "num_add x PInf = PInf"
| "num_add NInf y = NInf"
| "num_add x NInf = NInf"
| "num_add (Fin a) (Fin b) = Fin (a + b)"

definition strip_sign :: "string \<Rightarrow> bool \<times> string" where
  "strip_sign s =
     (case s of
        [] \<Rightarrow> (False, [])
      | c # r \<Rightarrow>
          if c = CHR ''-'' then (True, r) else if c = CHR ''+'' then (False, r) else (False, s))"

definition exponent_part :: "string \<Rightarrow> int" where
  "exponent_part s =
     (case s of
        [] \<Rightarrow> 0
      | c # r \<Rightarrow>
          if c = CHR ''e'' \<or> c = CHR ''E''
          then (let (neg, t) = strip_sign r; ds = takeWhile isDigit t
                in if ds = [] then 0 else if neg then - int (parseInt ds) else int (parseInt ds))
          else 0)"

definition scale10 :: "rat \<Rightarrow> int \<Rightarrow> rat" where
  "scale10 q e = (if 0 \<le> e then q * 10 ^ nat e else q / 10 ^ nat (- e))"

text \<open>
  \<open>parseFloat\<close> of a text: leading white space is skipped and the longest prefix that is
  a decimal literal (sign, digits, fraction, exponent, or \<open>Infinity\<close>) is read; there being
  none, the result is \<open>NaN\<close>.
\<close>

definition parseFloat_string :: "string \<Rightarrow> jsnum" where
  "parseFloat_string s =
     (let (neg, u) = strip_sign (dropWhile isWhiteSpace s)
      in if startsWith u ''Infinity'' then (if neg then NInf else PInf)
         else
           (let ip = takeWhile isDigit u;
                r1 = dropWhile isDigit u;
                fp = (if startsWith r1 ''.'' then takeWhile isDigit (drop 1 r1) else []);
                r2 = (if startsWith r1 ''.'' then dropWhile isDigit (drop 1 r1) else r1);
                m = of_nat (parseInt ip) + of_nat (parseInt fp) / 10 ^ length fp
            in if ip = [] \<and> fp = [] then NaN
               else Fin (scale10 (if neg then - m else m) (exponent_part r2))))"

text \<open>
  The text of a number. It is exact for \<open>NaN\<close>, the infinities and the integers below
  \<open>10^21\<close>; for other finite numbers it is the decimal expansion cut after 17 places,
  where the host prints the shortest expansion that reads back as the same double.
\<close>

function fraction_digits :: "nat \<Rightarrow> rat \<Rightarrow> string" where
  "fraction_digits n q =
     (if n = 0 \<or> q = 0 then []
      else char_of (48 + nat \<lfloor>q * 10\<rfloor>) #
           fraction_digits (n - 1) (q * 10 - of_int \<lfloor>q * 10\<rfloor>))"
  by pat_completeness auto
termination
  by (relation "measure fst") auto

declare fraction_digits.simps [simp del]

definition numberToString :: "jsnum \<Rightarrow> string" where
  "numberToString n =
     (case n of
        NaN \<Rightarrow> ''NaN''
      | PInf \<Rightarrow> ''Infinity''
      | NInf \<Rightarrow> ''-Infinity''
      | Fin q \<Rightarrow>
          (let a = \<bar>q\<bar>; whole = nat \<lfloor>a\<rfloor>; frac = a - of_nat whole
           in (if q < 0 then ''-'' else '''') @ digits_of whole @
              (if frac = 0 then '''' else ''.'' @ fraction_digits 17 frac)))"

text \<open>The conversion of a value to text, as \<open>replace\<close> applies it to its second argument.\<close>

definition toString :: "jsval \<Rightarrow> string" where
  "toString v =
     (case v of
        Undefined \<Rightarrow> ''undefined''
      | Null \<Rightarrow> ''null''
      | Bool b \<Rightarrow> (if b then ''true'' else ''false'')
      | Num n \<Rightarrow> numberToString n
      | Str s \<Rightarrow> s)"

text \<open>
  \<open>parseFloat(v)\<close> parses the text of \<open>v\<close>. The text of a number reads back as that
  number, which is stated directly.
\<close>

definition parseFloat :: "jsval \<Rightarrow> jsnum" where
  "parseFloat v = (case v of Num n \<Rightarrow> n | _ \<Rightarrow> parseFloat_string (toString v))"

text \<open>
  \<open>isNaN(v)\<close>: the conversion of \<open>v\<close> to a number is \<open>NaN\<close>. A text converts to a number
  when, white space trimmed, it is empty, a decimal literal, or a hexadecimal, octal or
  binary integer literal.
\<close>

definition isHexDigit :: "char \<Rightarrow> bool" where
  "isHexDigit c =
     (isDigit c \<or> (of_char c :: nat) \<in> {65..70} \<or> (of_char c :: nat) \<in> {97..102})"

definition isStrDecimalLiteral :: "string \<Rightarrow> bool" where
  "isStrDecimalLiteral s =
     (let u = snd (strip_sign s)
      in u = ''Infinity'' \<or>
         (let ip = takeWhile isDigit u;
              r1 = dropWhile isDigit u;
              fp = (if startsWith r1 ''.'' then takeWhile isDigit (drop 1 r1) else []);
              r2 = (if startsWith r1 ''.'' then dropWhile isDigit (drop 1 r1) else r1)
          in (ip \<noteq> [] \<or> fp \<noteq> []) \<and>
             (r2 = [] \<or>
              ((startsWith r2 ''e'' \<or> startsWith r2 ''E'') \<and>
               (let ds = snd (strip_sign (drop 1 r2)) in ds \<noteq> [] \<and> list_all isDigit ds)))))"

definition isNonDecimalIntegerLiteral :: "string \<Rightarrow> bool" where
  "isNonDecimalIntegerLiteral s =
     (let body = drop 2 s
      in body \<noteq> [] \<and>
         (((startsWith s ''0x'' \<or> startsWith s ''0X'') \<and> list_all isHexDigit body) \<or>
          ((startsWith s ''0o'' \<or> startsWith s ''0O'') \<and>
             list_all (\<lambda>c. (of_char c :: nat) \<in> {48..55}) body) \<or>
          ((startsWith s ''0b'' \<or> startsWith s ''0B'') \<and>
             list_all (\<lambda>c. (of_char c :: nat) \<in> {48..49}) body)))"

definition stringIsNumeric :: "string \<Rightarrow> bool" where
  "stringIsNumeric s =
     (let t = trim s in t = [] \<or> isStrDecimalLiteral t \<or> isNonDecimalIntegerLiteral t)"

definition isNaN :: "jsval \<Rightarrow> bool" where
  "isNaN v =
     (case v of
        Undefined \<Rightarrow> True
      | Null \<Rightarrow> False
      | Bool b \<Rightarrow> False
      | Num n \<Rightarrow> n = NaN
      | Str s \<Rightarrow> \<not> stringIsNumeric s)"

section \<open>Column headers\<close>

text \<open>
  The inner loop of \<open>getColumnHeaders\<close>:
  \<^verbatim>\<open>while (quotient >= 0) { const remainder = quotient % 26;
     header = String.fromCharCode(charCodeOffset + remainder) + header;
     quotient = Math.floor(quotient / 26) - 1; }\<close>
\<close>

function header_loop :: "int \<Rightarrow> string \<Rightarrow> string" where
  "header_loop quot header =
     (if quot \<ge> 0
      then header_loop (quot div 26 - 1)
             (fromCharCode (charCodeOffset + nat (quot mod 26)) # header)
      else header)"
  by pat_completeness auto
termination
  by (relation "measure (\<lambda>(q, h). nat (q + 1))") auto

declare header_loop.simps [simp del]

text \<open>The outer loop: \<open>columnCount\<close> runs from 1 while \<open>columnCount <= count\<close>.\<close>

function getColumnHeaders_loop :: "int \<Rightarrow> int \<Rightarrow> string list \<Rightarrow> string list" where
  "getColumnHeaders_loop count columnCount columnHeaders =
     (if columnCount \<le> count
      then getColumnHeaders_loop count (columnCount + 1)
             (columnHeaders @ [header_loop (columnCount - 1) []])
      else columnHeaders)"
  by pat_completeness auto
termination
  by (relation "measure (\<lambda>(n, c, hs). nat (n + 1 - c))") auto

declare getColumnHeaders_loop.simps [simp del]

definition getColumnHeaders :: "int \<Rightarrow> string list" where
  "getColumnHeaders count = getColumnHeaders_loop count 1 []"

text \<open>
  The specification's recurrence for the label of the 1-based column number \<open>k\<close>:
  take \<open>(k - 1) mod 26\<close> as the next least-significant letter, continue with
  \<open>floor ((k - 1) / 26)\<close>, stop at 0. This definition follows the specification's words
  and is compared with the loops of the source below.
\<close>

function bijective26 :: "nat \<Rightarrow> string" where
  "bijective26 k =
     (if k = 0 then []
      else bijective26 ((k - 1) div 26) @ [char_of (65 + (k - 1) mod 26)])"
  by pat_completeness auto
termination
  by (relation "measure id") auto

declare bijective26.simps [simp del]

section \<open>Regular expressions of the program\<close>

text \<open>
  A regular expression without the \<open>g\<close> flag is searched from the left: \<open>regex_search m s\<close>
  tries the anchored matcher \<open>m\<close> at every position of \<open>s\<close> in turn and gives the first
  match. In each expression of the program a repetition is followed by a character
  outside its class, so the greedy match is the only one and the anchored matchers
  below take the longest runs.
\<close>

fun regex_search :: "(string \<Rightarrow> 'a option) \<Rightarrow> string \<Rightarrow> 'a option" where
  "regex_search m [] = m []"
| "regex_search m (c # s) =
     (case m (c # s) of Some r \<Rightarrow> Some r | None \<Rightarrow> regex_search m s)"

text \<open>\<open>/[A-Z]+/\<close> and \<open>/\d+/\<close>, anchored.\<close>

definition match_upper :: "string \<Rightarrow> string option" where
  "match_upper s = (let ls = takeWhile isUpper s in if ls = [] then None else Some ls)"

definition match_digits :: "string \<Rightarrow> string option" where
  "match_digits s = (let ds = takeWhile isDigit s in if ds = [] then None else Some ds)"

text \<open>\<open>/[A-Z]+\d+/\<close>, anchored: the matched text and the rest of the input.\<close>

definition match_cellReference :: "string \<Rightarrow> (string \<times> string) option" where
  "match_cellReference s =
     (let ls = takeWhile isUpper s;
          r = dropWhile isUpper s;
          ds = takeWhile isDigit r
      in if ls = [] \<or> ds = [] then None else Some (ls @ ds, dropWhile isDigit r))"

text \<open>\<open>/[A-Z]+\d+:[A-Z]+\d+/\<close>, anchored.\<close>

definition match_range :: "string \<Rightarrow> (string \<times> string) option" where
  "match_range s =
     (case match_cellReference s of
        None \<Rightarrow> None
      | Some (a, r) \<Rightarrow>
          (if startsWith r '':''
           then (case match_cellReference (drop 1 r) of
                   None \<Rightarrow> None
                 | Some (b, r') \<Rightarrow> Some (a @ '':'' @ b, r'))
           else None))"

definition rangeRegex :: "string \<Rightarrow> string option" where
  "rangeRegex s = map_option fst (match_range s)"

text \<open>\<open>/([A-Z]+)\([A-Z]+\d+:[A-Z]+\d+\)/\<close>, anchored: the matched text.\<close>

definition functionRegex :: "string \<Rightarrow> string option" where
  "functionRegex s =
     (let name = takeWhile isUpper s;
          r = dropWhile isUpper s
      in if name = [] \<or> \<not> startsWith r ''(''
         then None
         else (case match_range (drop 1 r) of
                 None \<Rightarrow> None
               | Some (rng, r') \<Rightarrow>
                   if startsWith r' '')'' then Some (name @ ''('' @ rng @ '')'') else None))"

text \<open>
  \<open>expression.match(/[A-Z]+\d+/g)\<close>: all matches from the left, each search resuming
  where the last match ended.
\<close>

function cellReferenceRegex_matches :: "string \<Rightarrow> string list" where
  "cellReferenceRegex_matches s =
     (case match_cellReference s of
        Some (m, rest) \<Rightarrow> m # cellReferenceRegex_matches rest
      | None \<Rightarrow> (case s of [] \<Rightarrow> [] | c # s' \<Rightarrow> cellReferenceRegex_matches s'))"
  by pat_completeness auto
termination
proof (relation "measure length")
  fix s x m rest
  assume "match_cellReference s = Some x" "(m, rest) = x"
  then have rest: "rest = dropWhile isDigit (dropWhile isUpper s)"
    and ne: "takeWhile isUpper s \<noteq> []"
    by (auto simp: match_cellReference_def Let_def split: if_splits)
  have "length (dropWhile isUpper s) < length s"
    using ne by (cases s) (auto simp: length_dropWhile_le le_imp_less_Suc split: if_splits)
  moreover have "length rest \<le> length (dropWhile isUpper s)"
    unfolding rest by (rule length_dropWhile_le)
  ultimately show "(rest, s) \<in> measure length" by simp
qed auto

declare cellReferenceRegex_matches.simps [simp del]

section \<open>parseCellId\<close>

text \<open>
  \<^verbatim>\<open>const col = cellId.match(/[A-Z]+/)[0];
  const row = parseInt(cellId.match(/\d+/)[0]);
  return [col, row];\<close>
  \<open>match\<close> gives \<open>null\<close> when nothing matches, and \<open>null[0]\<close> raises a \<open>TypeError\<close>.
\<close>

definition parseCellId :: "string \<Rightarrow> error + (string \<times> nat)" where
  "parseCellId cellId =
     (case regex_search match_upper cellId of
        None \<Rightarrow> Inl TypeError
      | Some col \<Rightarrow>
          (case regex_search match_digits cellId of
             None \<Rightarrow> Inl TypeError
           | Some ds \<Rightarrow> Inr (col, parseInt ds)))"

section \<open>The cell store\<close>

text \<open>
  \<open>cells\<close> is an object used as a table from cell ids to records. \<open>script.js\<close> only
  stores records \<open>{ formula, value }\<close>; the second copy of the script in the repository
  also stores records \<open>{ updatedFormula, value }\<close>. A record is therefore modelled with
  the three properties, \<open>None\<close> standing for a property that the object does not have
  (reading it gives \<open>undefined\<close>). \<open>Object.keys\<close> lists the ids in the order of their first
  assignment, so the table is an association list: an assignment to an id already there
  replaces its record in place, another is added at the end.
\<close>

record cell =
  formula :: "string option"
  updatedFormula :: "string option"
  "value" :: jsval

text \<open>The object \<open>{ formula: f, value: v }\<close>.\<close>

definition formula_value :: "string \<Rightarrow> jsval \<Rightarrow> cell" where
  "formula_value f v = \<lparr>formula = Some f, updatedFormula = None, value = v\<rparr>"

type_synonym cells = "(string \<times> cell) list"

definition cells_get :: "cells \<Rightarrow> string \<Rightarrow> cell option" where
  "cells_get cells cellId = map_of cells cellId"

fun cells_set :: "cells \<Rightarrow> string \<Rightarrow> cell \<Rightarrow> cells" where
  "cells_set [] cellId c = [(cellId, c)]"
| "cells_set ((k, old) # rest) cellId c =
     (if k = cellId then (k, c) # rest else (k, old) # cells_set rest cellId c)"

definition Object_keys :: "cells \<Rightarrow> string list" where
  "Object_keys cells = map fst cells"

text \<open>
  \<^verbatim>\<open>const cellValue = cells[cellId] || 0;  ... cellValue.value\<close>
  A record is an object and so never falsy. For an id that is not in the table
  \<open>cellValue\<close> is the number 0, whose property \<open>value\<close> is \<open>undefined\<close>.
\<close>

definition cellValue_value :: "cells \<Rightarrow> string \<Rightarrow> jsval" where
  "cellValue_value cells cellId =
     (case cells_get cells cellId of None \<Rightarrow> Undefined | Some cellValue \<Rightarrow> value cellValue)"

section \<open>The SUM of a range\<close>

text \<open>
  \<^verbatim>\<open>let sum = 0;
  for (let row = startRow; row <= endRow; row++) {
    for (let col = startCol.charCodeAt(0); col <= endCol.charCodeAt(0); col++) {
      const cellId = String.fromCharCode(col) + row;
      const cellValue = cells[cellId] || 0;
      sum += parseFloat(cellValue.value);
    }
  }
  return sum;\<close>
  A comparison with \<open>NaN\<close> is false, so the inner loop does not run when a column label is
  empty.
\<close>

function sumRange_cols :: "cells \<Rightarrow> nat \<Rightarrow> nat \<Rightarrow> nat \<Rightarrow> jsnum \<Rightarrow> jsnum" where
  "sumRange_cols cells row col endCode sum0 =
     (if col \<le> endCode
      then sumRange_cols cells row (col + 1) endCode
             (num_add sum0 (parseFloat (cellValue_value cells (fromCharCode col # digits_of row))))
      else sum0)"
  by pat_completeness auto
termination
  by (relation "measure (\<lambda>(cells, row, col, endCode, sum0). endCode + 1 - col)") auto

declare sumRange_cols.simps [simp del]

function sumRange_rows ::
  "cells \<Rightarrow> string \<Rightarrow> string \<Rightarrow> nat \<Rightarrow> nat \<Rightarrow> jsnum \<Rightarrow> jsnum" where
  "sumRange_rows cells startCol endCol row endRow sum0 =
     (if row \<le> endRow
      then sumRange_rows cells startCol endCol (row + 1) endRow
             (case (charCodeAt0 startCol, charCodeAt0 endCol) of
                (Some col, Some endCode) \<Rightarrow> sumRange_cols cells row col endCode sum0
              | _ \<Rightarrow> sum0)
      else sum0)"
  by pat_completeness auto
termination
  by (relation "measure (\<lambda>(cells, startCol, endCol, row, endRow, sum0). endRow + 1 - row)") auto

declare sumRange_rows.simps [simp del]

definition sumRange :: "cells \<Rightarrow> string \<Rightarrow> nat \<Rightarrow> string \<Rightarrow> nat \<Rightarrow> jsnum" where
  "sumRange cells startCol startRow endCol endRow =
     sumRange_rows cells startCol endCol startRow endRow (Fin 0)"

definition SUPPORTED_FUNCTIONS ::
  "(string \<times> (cells \<Rightarrow> string \<Rightarrow> nat \<Rightarrow> string \<Rightarrow> nat \<Rightarrow> jsnum)) list" where
  "SUPPORTED_FUNCTIONS = [(''SUM'', sumRange)]"

definition hasOwnProperty :: "(string \<times> 'a) list \<Rightarrow> string \<Rightarrow> bool" where
  "hasOwnProperty obj name = (map_of obj name \<noteq> None)"

section \<open>evaluateFunction and evaluateExpression\<close>

text \<open>
  \<^verbatim>\<open>const range = functionExpression.match(rangeRegex)[0];
  const [startCell, endCell] = range.split(":");
  const [startCol, startRow] = parseCellId(startCell);
  const [endCol, endRow] = parseCellId(endCell);
  if (SUPPORTED_FUNCTIONS.hasOwnProperty(functionName)) {
    const getFunction = SUPPORTED_FUNCTIONS[functionName];
    return getFunction(startCol, startRow, endCol, endRow);
  }
  return "";\<close>
\<close>

definition evaluateFunction :: "cells \<Rightarrow> string \<Rightarrow> string \<Rightarrow> error + jsval" where
  "evaluateFunction cells functionExpression functionName =
     (case regex_search rangeRegex functionExpression of
        None \<Rightarrow> Inl TypeError
      | Some rng \<Rightarrow>
          (case split_on (CHR '':'') rng of
             startCell # endCell # _ \<Rightarrow>
               (case parseCellId startCell of
                  Inl e \<Rightarrow> Inl e
                | Inr (startCol, startRow) \<Rightarrow>
                    (case parseCellId endCell of
                       Inl e \<Rightarrow> Inl e
                     | Inr (endCol, endRow) \<Rightarrow>
                         (case map_of SUPPORTED_FUNCTIONS functionName of
                            Some getFunction \<Rightarrow>
                              Inr (Num (getFunction cells startCol startRow endCol endRow))
                          | None \<Rightarrow> Inr (Str ''''))))
           | _ \<Rightarrow> Inl TypeError))"

text \<open>
  The \<open>forEach\<close> over the cell references of a plain expression:
  \<^verbatim>\<open>const [refCol, refRow] = parseCellId(cellReference);
  const cellId = refCol + refRow;
  const cellValue = cells[cellId] || 0; // Treat empty cells as 0
  expression = expression.replace(cellReference, cellValue.value);\<close>
\<close>

fun substitute_references :: "cells \<Rightarrow> string list \<Rightarrow> string \<Rightarrow> error + string" where
  "substitute_references cells [] expression = Inr expression"
| "substitute_references cells (cellReference # cellReferences) expression =
     (case parseCellId cellReference of
        Inl e \<Rightarrow> Inl e
      | Inr (refCol, refRow) \<Rightarrow>
          substitute_references cells cellReferences
            (replace expression cellReference
               (toString (cellValue_value cells (refCol @ digits_of refRow)))))"

text \<open>
  The first part of \<open>evaluateExpression\<close>, up to the \<open>try\<close>: the text that is handed to
  \<open>eval\<close>, or \<open>None\<close> for the early \<open>return "N/A"\<close> of an unsupported function name.
  \<^verbatim>\<open>const cellReferences = expression.match(cellReferenceRegex) || [];
  if (functionRegex.test(expression)) {
    const functionMatch = expression.match(functionRegex)[0];
    const functionName = functionMatch.split("(")[0].replace("=", "");
    if (SUPPORTED_FUNCTIONS.hasOwnProperty(functionName)) {
      expression = expression.replace(functionMatch,
        evaluateFunction(functionMatch, functionName));
    } else { return "N/A"; }
  } else { cellReferences.forEach(...); }\<close>
\<close>

definition functionName_of :: "string \<Rightarrow> string" where
  "functionName_of functionMatch = replace (hd (split_on (CHR ''('') functionMatch)) ''='' ''''"

definition substituted_expression :: "cells \<Rightarrow> string \<Rightarrow> error + string option" where
  "substituted_expression cells expression =
     (let cellReferences = cellReferenceRegex_matches expression
      in case regex_search functionRegex expression of
           Some functionMatch \<Rightarrow>
             (let functionName = functionName_of functionMatch
              in if hasOwnProperty SUPPORTED_FUNCTIONS functionName
                 then (case evaluateFunction cells functionMatch functionName of
                         Inl e \<Rightarrow> Inl e
                       | Inr r \<Rightarrow> Inr (Some (replace expression functionMatch (toString r))))
                 else Inr None)
         | None \<Rightarrow>
             (case substitute_references cells cellReferences expression of
                Inl e \<Rightarrow> Inl e
              | Inr substituted \<Rightarrow> Inr (Some substituted)))"

text \<open>
  \<open>eval\<close> is the host's evaluator of program text. It is a parameter of the model: an
  \<open>evaluator\<close> gives, for the store and a text, either the value of the text or the fact
  that evaluating it throws.
  \<^verbatim>\<open>try { const result = eval(expression);
        return isNaN(result) ? "" : result;
  } catch (error) { return "N/A"; }\<close>
\<close>

datatype eval_outcome = Throws | Returns jsval

type_synonym evaluator = "cells \<Rightarrow> string \<Rightarrow> eval_outcome"

definition guarded_eval :: "evaluator \<Rightarrow> cells \<Rightarrow> string \<Rightarrow> jsval" where
  "guarded_eval ev cells expression =
     (case ev cells expression of
        Throws \<Rightarrow> Str ''N/A''
      | Returns result \<Rightarrow> if isNaN result then Str '''' else result)"

definition evaluateExpression :: "evaluator \<Rightarrow> cells \<Rightarrow> string \<Rightarrow> error + jsval" where
  "evaluateExpression ev cells expression =
     (case substituted_expression cells expression of
        Inl e \<Rightarrow> Inl e
      | Inr None \<Rightarrow> Inr (Str ''N/A'')
      | Inr (Some substituted) \<Rightarrow> Inr (guarded_eval ev cells substituted))"

section \<open>Editing a cell\<close>

text \<open>
  The state of the page: the table \<open>cells\<close> and, in \<open>rendered\<close>, the assignments
  \<open>element.innerText = value\<close> the program has made, oldest first. Every id in the table
  is the id of an element of the grid, so \<open>document.getElementById\<close> finds it. A function
  that can end in an uncaught \<open>TypeError\<close> gives the error, if any, and the state it
  leaves behind.
\<close>

record state =
  cells :: cells
  rendered :: "(string \<times> jsval) list"

text \<open>
  \<^verbatim>\<open>Object.keys(cells).forEach((cellId) => {
    const { formula, value } = cells[cellId];
    if (formula.includes(updatedCellId)) {
      const [col, row] = parseCellId(cellId);
      const evaluatedValue = evaluateExpression(formula.substring(1), col, row);
      cells[cellId] = { formula, value: evaluatedValue };
      const cellElement = document.getElementById(cellId);
      cellElement.innerText = evaluatedValue;
    }
  });\<close>
  For a record without the property \<open>formula\<close> the call \<open>formula.includes\<close> raises a
  \<open>TypeError\<close>.
\<close>

fun updateDependentCells_loop ::
  "evaluator \<Rightarrow> string \<Rightarrow> string list \<Rightarrow> state \<Rightarrow> error option \<times> state" where
  "updateDependentCells_loop ev updatedCellId [] st = (None, st)"
| "updateDependentCells_loop ev updatedCellId (cellId # cellIds) st =
     (case cells_get (cells st) cellId of
        None \<Rightarrow> (Some TypeError, st)
      | Some c \<Rightarrow>
          (case formula c of
             None \<Rightarrow> (Some TypeError, st)
           | Some f \<Rightarrow>
               if str_includes f updatedCellId
               then (case parseCellId cellId of
                       Inl e \<Rightarrow> (Some e, st)
                     | Inr (col, row) \<Rightarrow>
                         (case evaluateExpression ev (cells st) (substring1 f) of
                            Inl e \<Rightarrow> (Some e, st)
                          | Inr evaluatedValue \<Rightarrow>
                              updateDependentCells_loop ev updatedCellId cellIds
                                (st\<lparr>cells := cells_set (cells st) cellId
                                               (formula_value f evaluatedValue),
                                    rendered := rendered st @ [(cellId, evaluatedValue)]\<rparr>)))
               else updateDependentCells_loop ev updatedCellId cellIds st))"

definition updateDependentCells ::
  "evaluator \<Rightarrow> string \<Rightarrow> state \<Rightarrow> error option \<times> state" where
  "updateDependentCells ev updatedCellId st =
     updateDependentCells_loop ev updatedCellId (Object_keys (cells st)) st"

text \<open>
  \<open>evaluateFormula\<close> is the \<open>blur\<close> handler of a cell; \<open>cellId\<close> and \<open>innerText\<close> are the id and
  the text of the cell that was edited. In \<open>script.js\<close>:
  \<^verbatim>\<open>const formula = cell.innerText.trim().toUpperCase();
  if (formula.startsWith("=")) {
    const expression = formula.substring(1); // Remove the leading "="
    const evaluatedValue = evaluateExpression(expression);
    cells[cellId] = { formula, value: evaluatedValue };
    cell.innerText = evaluatedValue;
  } else {
    cells[cellId] = { formula: "", value: formula }; // Store non-formula values directly
  }
  updateDependentCells(cellId);\<close>
\<close>

definition evaluateFormula ::
  "evaluator \<Rightarrow> string \<Rightarrow> string \<Rightarrow> state \<Rightarrow> error option \<times> state" where
  "evaluateFormula ev cellId innerText st =
     (let formula = toUpperCase (trim innerText)
      in if startsWith formula ''=''
         then (let expression = substring1 formula
               in case evaluateExpression ev (cells st) expression of
                    Inl e \<Rightarrow> (Some e, st)
                  | Inr evaluatedValue \<Rightarrow>
                      updateDependentCells ev cellId
                        (st\<lparr>cells := cells_set (cells st) cellId
                                       (formula_value formula evaluatedValue),
                            rendered := rendered st @ [(cellId, evaluatedValue)]\<rparr>))
         else updateDependentCells ev cellId
                (st\<lparr>cells := cells_set (cells st) cellId
                               (formula_value '''' (Str formula))\<rparr>))"

text \<open>
  The second copy of the script (its file name is not known; it is called \<open>part_000\<close>
  here) has the same functions, text for text, except for \<open>evaluateFormula\<close>:
  \<^verbatim>\<open>const formula = cell.innerText.trim();
  if (formula.startsWith("=")) {
    const updatedFormula = formula.toUpperCase();
    const expression = updatedFormula.substring(1); // Remove the leading "="
    const evaluatedValue = evaluateExpression(expression);
    cells[cellId] = { updatedFormula, value: evaluatedValue };
    cell.innerText = evaluatedValue;
  } else {
    cells[cellId] = { formula: "", value: formula }; // Store non-formula values directly
  }
  updateDependentCells(cellId);\<close>
\<close>

definition evaluateFormula_part_000 ::
  "evaluator \<Rightarrow> string \<Rightarrow> string \<Rightarrow> state \<Rightarrow> error option \<times> state" where
  "evaluateFormula_part_000 ev cellId innerText st =
     (let formula = trim innerText
      in if startsWith formula ''=''
         then (let updatedFormula = toUpperCase formula;
                   expression = substring1 updatedFormula
               in case evaluateExpression ev (cells st) expression of
                    Inl e \<Rightarrow> (Some e, st)
                  | Inr evaluatedValue \<Rightarrow>
                      updateDependentCells ev cellId
                        (st\<lparr>cells := cells_set (cells st) cellId
                                       \<lparr>formula = None, updatedFormula = Some updatedFormula,
                                          value = evaluatedValue\<rparr>,
                            rendered := rendered st @ [(cellId, evaluatedValue)]\<rparr>))
         else updateDependentCells ev cellId
                (st\<lparr>cells := cells_set (cells st) cellId
                               (formula_value '''' (Str formula))\<rparr>))"

section \<open>A reference evaluator for plain arithmetic\<close>

text \<open>
  To run the program on examples, \<open>arith_eval\<close> evaluates the texts of a small fragment
  the way \<open>eval\<close> does: unsigned decimal integers without a leading zero and the global
  names \<open>undefined\<close> and \<open>NaN\<close>, joined by the binary operators \<open>+ - * /\<close> with their usual
  precedence, from left to right, without white space. In an arithmetic operation
  \<open>undefined\<close> converts to \<open>NaN\<close>. \<open>arith_eval\<close> is \<open>None\<close> outside the fragment, also for a
  division by zero, whose result depends on the sign of zero. \<open>arithmetic_evaluator\<close>
  extends it by \<open>Throws\<close>; the examples below only hand it texts on which \<open>arith_eval\<close>
  is defined.
\<close>

datatype token = T_number nat | T_undefined | T_NaN | T_operator char

definition isIdentifierPart :: "char \<Rightarrow> bool" where
  "isIdentifierPart c =
     (isDigit c \<or> isUpper c \<or> isLower c \<or> c = CHR ''_'' \<or> c = CHR ''$'' \<or>
      128 \<le> (of_char c :: nat))"

definition isOperator :: "char \<Rightarrow> bool" where
  "isOperator c = (c = CHR ''+'' \<or> c = CHR ''-'' \<or> c = CHR ''*'' \<or> c = CHR ''/'')"

definition ends_identifier :: "string \<Rightarrow> bool" where
  "ends_identifier s = (case s of [] \<Rightarrow> True | c # _ \<Rightarrow> \<not> isIdentifierPart c)"

function tokenize :: "string \<Rightarrow> token list option" where
  "tokenize s =
     (case s of
        [] \<Rightarrow> Some []
      | c # r \<Rightarrow>
          if isDigit c
          then (let ds = takeWhile isDigit s; rest = dropWhile isDigit s
                in if (c = CHR ''0'' \<and> length ds > 1) \<or>
                      \<not> ends_identifier rest \<or> startsWith rest ''.''
                   then None
                   else map_option ((#) (T_number (parseInt ds))) (tokenize rest))
          else if isOperator c
          then map_option ((#) (T_operator c)) (tokenize r)
          else if startsWith s ''undefined'' \<and> ends_identifier (drop 9 s)
          then map_option ((#) T_undefined) (tokenize (drop 9 s))
          else if startsWith s ''NaN'' \<and> ends_identifier (drop 3 s)
          then map_option ((#) T_NaN) (tokenize (drop 3 s))
          else None)"
  by pat_completeness auto
termination
proof (relation "measure length")
  fix s c r ds rest
  assume "s = c # r" "isDigit c" "rest = dropWhile isDigit s"
  then show "(rest, s) \<in> measure length"
    by (simp add: length_dropWhile_le le_imp_less_Suc)
qed auto

declare tokenize.simps [simp del]

definition factor_value :: "token \<Rightarrow> jsnum option" where
  "factor_value t =
     (case t of
        T_number n \<Rightarrow> Some (Fin (of_nat n))
      | T_undefined \<Rightarrow> Some NaN
      | T_NaN \<Rightarrow> Some NaN
      | T_operator c \<Rightarrow> None)"

definition arith :: "char \<Rightarrow> jsnum \<Rightarrow> jsnum \<Rightarrow> jsnum option" where
  "arith c x y =
     (case (x, y) of
        (Fin a, Fin b) \<Rightarrow>
          if c = CHR ''+'' then Some (Fin (a + b))
          else if c = CHR ''-'' then Some (Fin (a - b))
          else if c = CHR ''*'' then Some (Fin (a * b))
          else if c = CHR ''/'' \<and> b \<noteq> 0 then Some (Fin (a / b))
          else None
      | (NaN, Fin b) \<Rightarrow> Some NaN
      | (Fin a, NaN) \<Rightarrow> Some NaN
      | (NaN, NaN) \<Rightarrow> Some NaN
      | _ \<Rightarrow> None)"

text \<open>
  \<open>eval_operators acc pending product ts\<close> reads the rest \<open>ts\<close> of a sum of products:
  \<open>acc\<close> is the sum so far, \<open>pending\<close> the additive operator before the current product,
  \<open>product\<close> the value of that product so far.
\<close>

fun eval_operators :: "jsnum \<Rightarrow> char \<Rightarrow> jsnum \<Rightarrow> token list \<Rightarrow> jsnum option" where
  "eval_operators acc pending product [] = arith pending acc product"
| "eval_operators acc pending product [t] = None"
| "eval_operators acc pending product (t # f # ts) =
     (case (t, factor_value f) of
        (T_operator c, Some v) \<Rightarrow>
          if c = CHR ''*'' \<or> c = CHR ''/''
          then (case arith c product v of
                  None \<Rightarrow> None
                | Some p \<Rightarrow> eval_operators acc pending p ts)
          else (case arith pending acc product of
                  None \<Rightarrow> None
                | Some a \<Rightarrow> eval_operators a c v ts)
      | _ \<Rightarrow> None)"

text \<open>
  An expression of the fragment followed by one more operator, such as \<open>1+\<close>, does not
  parse: \<open>eval\<close> throws a \<open>SyntaxError\<close>.
\<close>

fun operands_and_operators :: "token list \<Rightarrow> bool" where
  "operands_and_operators [] = False"
| "operands_and_operators [f] = (factor_value f \<noteq> None)"
| "operands_and_operators (f # t # ts) =
     (factor_value f \<noteq> None \<and> factor_value t = None \<and> operands_and_operators ts)"

definition dangling_operator :: "token list \<Rightarrow> bool" where
  "dangling_operator ts =
     (ts \<noteq> [] \<and> factor_value (last ts) = None \<and> operands_and_operators (butlast ts))"

definition arith_eval :: "string \<Rightarrow> eval_outcome option" where
  "arith_eval s =
     (case tokenize s of
        None \<Rightarrow> None
      | Some [] \<Rightarrow> None
      | Some [T_undefined] \<Rightarrow> Some (Returns Undefined)
      | Some (f # ts) \<Rightarrow>
          if dangling_operator (f # ts) then Some Throws
          else (case factor_value f of
                  None \<Rightarrow> None
                | Some v \<Rightarrow>
                    map_option (\<lambda>n. Returns (Num n))
                      (eval_operators (Fin 0) (CHR ''+'') v ts)))"

definition arithmetic_evaluator :: evaluator where
  "arithmetic_evaluator cs s = (case arith_eval s of Some r \<Rightarrow> r | None \<Rightarrow> Throws)"

section \<open>Notions used in the statements\<close>

text \<open>
  The ids that the two loops of \<open>sumRange\<close> build, in the order of the loops: for every
  row from \<open>startRow\<close> to \<open>endRow\<close>, one id for every character code from that of \<open>c0\<close> to
  that of \<open>c1\<close>.
\<close>

definition visited_cells :: "char \<Rightarrow> nat \<Rightarrow> char \<Rightarrow> nat \<Rightarrow> string list" where
  "visited_cells c0 startRow c1 endRow =
     concat (map (\<lambda>row. map (\<lambda>col. fromCharCode col # digits_of row)
                          [of_char c0..<Suc (of_char c1)])
                 [startRow..<Suc endRow])"

definition add_cell :: "cells \<Rightarrow> jsnum \<Rightarrow> string \<Rightarrow> jsnum" where
  "add_cell cs sum0 cellId = num_add sum0 (parseFloat (cellValue_value cs cellId))"

text \<open>
  The expression has the form of a function call whose name is not a property of
  \<open>SUPPORTED_FUNCTIONS\<close>.
\<close>

definition unsupported_function :: "string \<Rightarrow> bool" where
  "unsupported_function e =
     (case regex_search functionRegex e of
        None \<Rightarrow> False
      | Some functionMatch \<Rightarrow> \<not> hasOwnProperty SUPPORTED_FUNCTIONS (functionName_of functionMatch))"

text \<open>
  A record contains the id \<open>u\<close> when it has a formula and \<open>u\<close> is a substring of it;
  \<open>dependents cs u\<close> are the ids of the table whose records contain \<open>u\<close>, in the order of
  \<open>Object.keys\<close>.
\<close>

definition contains_id :: "cell \<Rightarrow> string \<Rightarrow> bool" where
  "contains_id c u = (case formula c of None \<Rightarrow> False | Some f \<Rightarrow> str_includes f u)"

definition depends_on :: "cells \<Rightarrow> string \<Rightarrow> string \<Rightarrow> bool" where
  "depends_on cs u k = (case cells_get cs k of None \<Rightarrow> False | Some c \<Rightarrow> contains_id c u)"

definition dependents :: "cells \<Rightarrow> string \<Rightarrow> string list" where
  "dependents cs u = filter (depends_on cs u) (Object_keys cs)"

text \<open>
  The tables that \<open>script.js\<close> builds: the ids are distinct, every id is a well-formed
  cell id, and every record has a formula.
\<close>

definition parses :: "string \<Rightarrow> bool" where
  "parses k = (case parseCellId k of Inl e \<Rightarrow> False | Inr p \<Rightarrow> True)"

definition has_formula :: "cells \<Rightarrow> string \<Rightarrow> bool" where
  "has_formula cs k = (case cells_get cs k of None \<Rightarrow> False | Some c \<Rightarrow> formula c \<noteq> None)"

definition well_formed :: "cells \<Rightarrow> bool" where
  "well_formed cs =
     (distinct (Object_keys cs) \<and> list_all (\<lambda>k. parses k \<and> has_formula cs k) (Object_keys cs))"

section \<open>The column headers are the bijective base-26 numerals\<close>

lemma header_loop_bijective26:
  "- 1 \<le> q \<Longrightarrow> header_loop q h = bijective26 (nat (q + 1)) @ h"
proof (induction q h rule: header_loop.induct)
  case (1 q h)
  show ?case
  proof (cases "0 \<le> q")
    case False
    with "1.prems" have "q = - 1" by simp
    then show ?thesis
      by (simp add: header_loop.simps [of "- 1"] bijective26.simps [of 0])
  next
    case True
    then have next_ok: "- 1 \<le> q div 26 - 1"
      by (simp add: pos_imp_zdiv_nonneg_iff)
    from True have k: "nat (q + 1) \<noteq> 0" "nat (q + 1) - 1 = nat q"
      by simp_all
    from True have d: "nat (q div 26 - 1 + 1) = nat q div 26"
      by (simp add: nat_div_distrib)
    from True have m: "nat (q mod 26) = nat q mod 26"
      by (simp add: nat_mod_distrib)
    have "header_loop q h =
        header_loop (q div 26 - 1) (fromCharCode (charCodeOffset + nat (q mod 26)) # h)"
      using True by (subst header_loop.simps) simp
    also have "\<dots> = bijective26 (nat (q div 26 - 1 + 1)) @
        fromCharCode (charCodeOffset + nat (q mod 26)) # h"
      using "1.IH" [OF True next_ok] .
    also have "\<dots> = bijective26 (nat (q + 1)) @ h"
      using k d m
      by (subst bijective26.simps [of "nat (q + 1)"])
        (simp add: fromCharCode_def charCodeOffset_def)
    finally show ?thesis .
  qed
qed

lemma getColumnHeaders_loop_map:
  "getColumnHeaders_loop n c hs = hs @ map (\<lambda>k. header_loop (k - 1) []) [c..n]"
proof (induction n c hs rule: getColumnHeaders_loop.induct)
  case (1 n c hs)
  show ?case
  proof (cases "c \<le> n")
    case True
    then have "[c..n] = c # [c + 1..n]"
      by (rule upto_rec1)
    with True "1.IH" show ?thesis
      by (subst getColumnHeaders_loop.simps) simp
  next
    case False
    then show ?thesis
      by (subst getColumnHeaders_loop.simps) simp
  qed
qed

lemma getColumnHeaders_map:
  "getColumnHeaders n = map (\<lambda>k. bijective26 (nat k)) [1..n]"
proof -
  have "map (\<lambda>k. header_loop (k - 1) []) [1..n] = map (\<lambda>k. bijective26 (nat k)) [1..n]"
    by (rule map_cong) (simp_all add: header_loop_bijective26)
  then show ?thesis
    by (simp add: getColumnHeaders_def getColumnHeaders_loop_map)
qed

text \<open>
  Claim C5. For every count \<open>n\<close>, \<open>getColumnHeaders n\<close> is the list of the first \<open>n\<close>
  labels of the bijective base-26 numbering given by the specification's recurrence
  (\<open>bijective26\<close>); \<open>getColumnHeaders 1\<close> is \<open>["A"]\<close>, and the 26th, 27th and 28th labels
  are \<open>"Z"\<close>, \<open>"AA"\<close> and \<open>"AB"\<close>.
\<close>

theorem getColumnHeaders_bijective26:
  "getColumnHeaders n = map (\<lambda>k. bijective26 (nat k)) [1..n]
   \<and> getColumnHeaders 1 = [''A'']
   \<and> getColumnHeaders 28 ! 25 = ''Z''
   \<and> getColumnHeaders 28 ! 26 = ''AA''
   \<and> getColumnHeaders 28 ! 27 = ''AB''"
proof -
  have "getColumnHeaders 1 = [''A'']" by code_simp
  moreover have "getColumnHeaders 28 ! 25 = ''Z''" by code_simp
  moreover have "getColumnHeaders 28 ! 26 = ''AA''" by code_simp
  moreover have "getColumnHeaders 28 ! 27 = ''AB''" by code_simp
  ultimately show ?thesis
    using getColumnHeaders_map [of n] by simp
qed

section \<open>Cell ids: what the regular expressions match and how parseCellId reads it\<close>

lemma isUpper_not_isDigit: "isUpper c \<Longrightarrow> \<not> isDigit c"
  by (simp add: isUpper_def isDigit_def)

lemma takeWhile_run:
  assumes "\<forall>c\<in>set xs. P c" and "r = [] \<or> \<not> P (hd r)"
  shows "takeWhile P (xs @ r) = xs" and "dropWhile P (xs @ r) = r"
  using assms by (cases r; simp)+

lemma regex_search_match_upper:
  assumes "ls \<noteq> []" and "\<forall>c\<in>set ls. isUpper c" and "r = [] \<or> \<not> isUpper (hd r)"
  shows "regex_search match_upper (ls @ r) = Some ls"
proof -
  from assms(1) obtain c ls' where ls: "ls = c # ls'"
    by (cases ls) auto
  have "match_upper (ls @ r) = Some ls"
    using assms(1) takeWhile_run(1) [OF assms(2,3)] by (simp add: match_upper_def)
  then show ?thesis
    by (simp add: ls)
qed

lemma regex_search_match_digits:
  assumes "\<forall>c\<in>set ls. \<not> isDigit c" and "ds \<noteq> []" and "\<forall>c\<in>set ds. isDigit c"
    and "r = [] \<or> \<not> isDigit (hd r)"
  shows "regex_search match_digits (ls @ ds @ r) = Some ds"
  using assms(1)
proof (induction ls)
  case Nil
  from assms(2) obtain d ds' where ds: "ds = d # ds'"
    by (cases ds) auto
  have "match_digits (ds @ r) = Some ds"
    using assms(2) takeWhile_run(1) [OF assms(3,4)] by (simp add: match_digits_def)
  then show ?case
    by (simp add: ds)
next
  case (Cons c ls)
  then have "match_digits (c # ls @ ds @ r) = None"
    by (simp add: match_digits_def)
  with Cons show ?case by simp
qed

lemma parseCellId_letters_digits:
  assumes "ls \<noteq> []" and "\<forall>c\<in>set ls. isUpper c" and "ds \<noteq> []" and "\<forall>c\<in>set ds. isDigit c"
  shows "parseCellId (ls @ ds) = Inr (ls, parseInt ds)"
proof -
  from assms(3,4) have "\<not> isUpper (hd ds)"
    using isUpper_not_isDigit [of "hd ds"] by (cases ds) auto
  then have col: "regex_search match_upper (ls @ ds) = Some ls"
    using assms(1,2) by (intro regex_search_match_upper) auto
  have "regex_search match_digits (ls @ ds @ []) = Some ds"
    using assms by (intro regex_search_match_digits) (auto dest: isUpper_not_isDigit)
  with col show ?thesis
    by (simp add: parseCellId_def)
qed

text \<open>A match of \<open>/[A-Z]+\d+/\<close> is a run of capital letters followed by a run of digits.\<close>

lemma match_cellReference_shape:
  assumes "match_cellReference s = Some (m, rest)"
  obtains ls ds where "m = ls @ ds" "s = m @ rest" "ls \<noteq> []" "\<forall>c\<in>set ls. isUpper c"
    "ds \<noteq> []" "\<forall>c\<in>set ds. isDigit c" "rest = [] \<or> \<not> isDigit (hd rest)"
proof
  let ?ls = "takeWhile isUpper s"
  let ?ds = "takeWhile isDigit (dropWhile isUpper s)"
  from assms show "m = ?ls @ ?ds" "?ls \<noteq> []" "?ds \<noteq> []"
    by (auto simp: match_cellReference_def Let_def split: if_splits)
  from assms have rest: "rest = dropWhile isDigit (dropWhile isUpper s)"
    by (auto simp: match_cellReference_def Let_def split: if_splits)
  show "s = m @ rest"
    unfolding rest \<open>m = ?ls @ ?ds\<close> by simp
  show "\<forall>c\<in>set ?ls. isUpper c" "\<forall>c\<in>set ?ds. isDigit c"
    by (auto dest: set_takeWhileD)
  show "rest = [] \<or> \<not> isDigit (hd rest)"
    unfolding rest by (metis hd_dropWhile)
qed

lemma match_cellReference_parse:
  assumes "match_cellReference s = Some (m, rest)"
  shows "\<exists>col row. parseCellId m = Inr (col, row)"
  using assms by (elim match_cellReference_shape) (simp add: parseCellId_letters_digits)

lemma cellReferenceRegex_matches_parse:
  "m \<in> set (cellReferenceRegex_matches s) \<Longrightarrow> \<exists>col row. parseCellId m = Inr (col, row)"
proof (induction s rule: cellReferenceRegex_matches.induct)
  case (1 s)
  show ?case
  proof (cases "match_cellReference s")
    case None
    show ?thesis
    proof (cases s)
      case Nil
      with None "1.prems" show ?thesis
        by (simp add: cellReferenceRegex_matches.simps [of "[]"])
    next
      case (Cons c s')
      with None "1.prems" have "m \<in> set (cellReferenceRegex_matches s')"
        by (simp add: cellReferenceRegex_matches.simps [of "c # s'"])
      with "1.IH"(1) [OF None Cons] show ?thesis .
    qed
  next
    case (Some p)
    obtain m' rest where p: "p = (m', rest)"
      by (cases p)
    from "1.prems" Some p have "m = m' \<or> m \<in> set (cellReferenceRegex_matches rest)"
      by (simp add: cellReferenceRegex_matches.simps [of s])
    then show ?thesis
    proof
      assume "m = m'"
      with Some p show ?thesis
        by (auto dest: match_cellReference_parse)
    next
      assume "m \<in> set (cellReferenceRegex_matches rest)"
      with "1.IH"(2) [OF Some p [symmetric]] show ?thesis .
    qed
  qed
qed

lemma substitute_references_total:
  assumes "\<forall>m\<in>set refs. \<exists>col row. parseCellId m = Inr (col, row)"
  shows "\<exists>t. substitute_references cs refs e = Inr t"
  using assms by (induction refs arbitrary: e) auto

section \<open>evaluateExpression never raises\<close>

lemma regex_search_Some:
  "regex_search m s = Some r \<Longrightarrow> \<exists>t. m t = Some r"
  by (induction s) (auto split: option.splits)

lemma match_cellReference_run:
  assumes "ls \<noteq> []" and "\<forall>c\<in>set ls. isUpper c" and "ds \<noteq> []" and "\<forall>c\<in>set ds. isDigit c"
    and "r = [] \<or> \<not> isDigit (hd r)"
  shows "match_cellReference (ls @ ds @ r) = Some (ls @ ds, r)"
proof -
  from assms(3,4) have "ds @ r = [] \<or> \<not> isUpper (hd (ds @ r))"
    using isUpper_not_isDigit [of "hd ds"] by (cases ds) auto
  with assms(2) have "takeWhile isUpper (ls @ ds @ r) = ls" "dropWhile isUpper (ls @ ds @ r) = ds @ r"
    by (rule takeWhile_run)+
  moreover from assms(4,5) have "takeWhile isDigit (ds @ r) = ds" "dropWhile isDigit (ds @ r) = r"
    by (rule takeWhile_run)+
  ultimately show ?thesis
    using assms(1,3) by (simp add: match_cellReference_def)
qed

lemma split_on_absent: "sep \<notin> set s \<Longrightarrow> split_on sep s = [s]"
  by (induction s) auto

lemma split_on_once:
  "sep \<notin> set a \<Longrightarrow> sep \<notin> set b \<Longrightarrow> split_on sep (a @ sep # b) = [a, b]"
  by (induction a) (auto simp: split_on_absent)

lemma colon_not_in_run:
  assumes "\<forall>c\<in>set ls. isUpper c" and "\<forall>c\<in>set ds. isDigit c"
  shows "CHR '':'' \<notin> set (ls @ ds)"
  using assms by (auto simp: isUpper_def isDigit_def)

text \<open>
  The range expression finds, inside a match of the function expression, the range
  between the parentheses: it fails at every position of the name and at the
  parenthesis.
\<close>

lemma regex_search_rangeRegex:
  assumes name: "\<forall>c\<in>set name. isUpper c"
    and a: "la \<noteq> []" "\<forall>c\<in>set la. isUpper c" "da \<noteq> []" "\<forall>c\<in>set da. isDigit c"
    and b: "lb \<noteq> []" "\<forall>c\<in>set lb. isUpper c" "db \<noteq> []" "\<forall>c\<in>set db. isDigit c"
  shows "regex_search rangeRegex (name @ ''('' @ (la @ da) @ '':'' @ (lb @ db) @ '')'')
    = Some ((la @ da) @ '':'' @ (lb @ db))"
  using name
proof (induction name)
  case Nil
  have first: "match_cellReference (la @ da @ '':'' @ (lb @ db) @ '')'')
      = Some (la @ da, '':'' @ (lb @ db) @ '')'')"
    using a by (intro match_cellReference_run) (auto simp: isDigit_def)
  have second: "match_cellReference (lb @ db @ '')'') = Some (lb @ db, '')'')"
    using b by (intro match_cellReference_run) (auto simp: isDigit_def)
  have here: "rangeRegex ((la @ da) @ '':'' @ (lb @ db) @ '')'') = Some ((la @ da) @ '':'' @ (lb @ db))"
    using first second by (simp add: rangeRegex_def match_range_def startsWith_def)
  have paren: "rangeRegex (CHR ''('' # (la @ da) @ '':'' @ (lb @ db) @ '')'') = None"
    by (simp add: rangeRegex_def match_range_def match_cellReference_def isUpper_def)
  from a(1) obtain c la' where "la = c # la'"
    by (cases la) auto
  with here paren show ?case
    by simp
next
  case (Cons c name)
  let ?tail = "''('' @ (la @ da) @ '':'' @ (lb @ db) @ '')''"
  from Cons.prems have "takeWhile isUpper ((c # name) @ ?tail) = c # name"
    and "dropWhile isUpper ((c # name) @ ?tail) = ?tail"
    by (intro takeWhile_run; simp add: isUpper_def)+
  then have "rangeRegex ((c # name) @ ?tail) = None"
    by (simp add: rangeRegex_def match_range_def match_cellReference_def isDigit_def)
  with Cons show ?case
    by simp
qed

lemma match_range_shape:
  assumes "match_range s = Some (rng, rest)"
  obtains la da lb db where "rng = (la @ da) @ '':'' @ (lb @ db)"
    "la \<noteq> []" "\<forall>c\<in>set la. isUpper c" "da \<noteq> []" "\<forall>c\<in>set da. isDigit c"
    "lb \<noteq> []" "\<forall>c\<in>set lb. isUpper c" "db \<noteq> []" "\<forall>c\<in>set db. isDigit c"
proof -
  from assms obtain a ra b where first: "match_cellReference s = Some (a, ra)"
    and second: "match_cellReference (drop 1 ra) = Some (b, rest)"
    and rng: "rng = a @ '':'' @ b"
    by (auto simp: match_range_def split: option.splits if_splits)
  from first obtain la da where "a = la @ da" "la \<noteq> []" "\<forall>c\<in>set la. isUpper c"
    "da \<noteq> []" "\<forall>c\<in>set da. isDigit c"
    by (rule match_cellReference_shape)
  moreover from second obtain lb db where "b = lb @ db" "lb \<noteq> []" "\<forall>c\<in>set lb. isUpper c"
    "db \<noteq> []" "\<forall>c\<in>set db. isDigit c"
    by (rule match_cellReference_shape)
  ultimately show ?thesis
    using rng by (intro that [of la da lb db]) simp_all
qed

lemma functionRegex_shape:
  assumes "functionRegex s = Some fm"
  obtains name la da lb db where
    "fm = name @ ''('' @ (la @ da) @ '':'' @ (lb @ db) @ '')''"
    "name \<noteq> []" "\<forall>c\<in>set name. isUpper c"
    "la \<noteq> []" "\<forall>c\<in>set la. isUpper c" "da \<noteq> []" "\<forall>c\<in>set da. isDigit c"
    "lb \<noteq> []" "\<forall>c\<in>set lb. isUpper c" "db \<noteq> []" "\<forall>c\<in>set db. isDigit c"
proof -
  let ?name = "takeWhile isUpper s"
  from assms obtain rng rest where range: "match_range (drop 1 (dropWhile isUpper s)) = Some (rng, rest)"
    and fm: "fm = ?name @ ''('' @ rng @ '')''" and ne: "?name \<noteq> []"
    by (auto simp: functionRegex_def Let_def split: option.splits if_splits)
  have upper: "\<forall>c\<in>set ?name. isUpper c"
    by (auto dest: set_takeWhileD)
  from range obtain la da lb db where "rng = (la @ da) @ '':'' @ (lb @ db)"
    "la \<noteq> []" "\<forall>c\<in>set la. isUpper c" "da \<noteq> []" "\<forall>c\<in>set da. isDigit c"
    "lb \<noteq> []" "\<forall>c\<in>set lb. isUpper c" "db \<noteq> []" "\<forall>c\<in>set db. isDigit c"
    by (rule match_range_shape)
  then show ?thesis
    using fm ne upper by (intro that [of ?name la da lb db]) simp_all
qed

text \<open>On a match of the function expression \<open>evaluateFunction\<close> calls the reducer.\<close>

lemma evaluateFunction_on_match:
  assumes "fm = name @ ''('' @ (la @ da) @ '':'' @ (lb @ db) @ '')''"
    and "\<forall>c\<in>set name. isUpper c"
    and a: "la \<noteq> []" "\<forall>c\<in>set la. isUpper c" "da \<noteq> []" "\<forall>c\<in>set da. isDigit c"
    and b: "lb \<noteq> []" "\<forall>c\<in>set lb. isUpper c" "db \<noteq> []" "\<forall>c\<in>set db. isDigit c"
  shows "evaluateFunction cs fm functionName =
    Inr (case map_of SUPPORTED_FUNCTIONS functionName of
           Some getFunction \<Rightarrow> Num (getFunction cs la (parseInt da) lb (parseInt db))
         | None \<Rightarrow> Str '''')"
proof -
  have range: "regex_search rangeRegex fm = Some ((la @ da) @ '':'' @ (lb @ db))"
    unfolding assms(1) using assms(2) a b by (rule regex_search_rangeRegex)
  have "split_on (CHR '':'') ((la @ da) @ CHR '':'' # (lb @ db)) = [la @ da, lb @ db]"
    using a b by (intro split_on_once colon_not_in_run) auto
  then have split: "split_on (CHR '':'') ((la @ da) @ '':'' @ (lb @ db)) = [la @ da, lb @ db]"
    by simp
  have "parseCellId (la @ da) = Inr (la, parseInt da)" "parseCellId (lb @ db) = Inr (lb, parseInt db)"
    using a b by (simp_all add: parseCellId_letters_digits)
  with range split show ?thesis
    unfolding evaluateFunction_def by (simp split: option.splits)
qed

lemma substituted_expression_total:
  "\<exists>r. substituted_expression cs e = Inr r"
proof (cases "regex_search functionRegex e")
  case None
  then show ?thesis
    using substitute_references_total [of "cellReferenceRegex_matches e" cs e]
      cellReferenceRegex_matches_parse [of _ e]
    by (auto simp: substituted_expression_def split: sum.splits)
next
  case (Some fm)
  then obtain t where "functionRegex t = Some fm"
    by (auto dest: regex_search_Some)
  then have "\<exists>v. evaluateFunction cs fm functionName = Inr v" for functionName
    by (elim functionRegex_shape) (simp add: evaluateFunction_on_match)
  from this [of "functionName_of fm"] Some show ?thesis
    by (auto simp: substituted_expression_def Let_def)
qed

lemma evaluateExpression_total:
  "\<exists>v. evaluateExpression ev cs e = Inr v"
  using substituted_expression_total [of cs e]
  by (auto simp: evaluateExpression_def split: option.splits)

section \<open>parseCellId on a label\<close>

text \<open>
  Claim C9, as stated, at the label \<open>B12\<close>: the column that \<open>parseCellId\<close> gives is the text
  \<open>"B"\<close>, the label itself, and not the number 1, its index among the column headers.
\<close>

theorem parseCellId_B12_column_is_label:
  "parseCellId ''B12'' = Inr (''B'', 12) \<and> Str ''B'' \<noteq> Num (Fin 1)"
  by (simp add: parseCellId_def match_upper_def match_digits_def isUpper_def isDigit_def
      parseInt_def digit_value_def)

text \<open>
  Claim C9, amended. \<open>parseCellId\<close> splits a label made of capital letters followed by
  digits into its column label, the run of letters as text, and its row, the number the
  digits denote.
\<close>

theorem parseCellId_splits_label:
  assumes "ls \<noteq> []" and "\<forall>c\<in>set ls. isUpper c" and "ds \<noteq> []" and "\<forall>c\<in>set ds. isDigit c"
  shows "parseCellId (ls @ ds) = Inr (ls, parseInt ds)"
  using assms by (rule parseCellId_letters_digits)

text \<open>
  At \<open>B12\<close> the column is \<open>"B"\<close> and the row is 12; \<open>"B"\<close> is the second column header,
  the one at index 1.
\<close>

theorem parseCellId_splits_label_witness:
  "parseCellId (''B'' @ ''12'') = Inr (''B'', 12) \<and> getColumnHeaders 2 ! 1 = ''B''"
proof -
  have "parseCellId (''B'' @ ''12'') = Inr (''B'', parseInt ''12'')"
    by (rule parseCellId_splits_label) (simp_all add: isUpper_def isDigit_def)
  moreover have "parseInt ''12'' = 12"
    by (simp add: parseInt_def digit_value_def)
  moreover have "getColumnHeaders 2 ! 1 = ''B''"
    by code_simp
  ultimately show ?thesis
    by simp
qed

section \<open>The ids of the grid\<close>

text \<open>
  The id of a grid cell is a column header followed by the decimal text of the row
  (\<open>columnHeaders[col] + row\<close>). \<open>parseCellId\<close> reads such an id back into the header and
  the row, so every id of the grid is a well-formed cell id.
\<close>

lemma isDigit_char_of: "d < 10 \<Longrightarrow> isDigit (char_of (48 + d :: nat))"
  by (simp add: isDigit_def)

lemma digit_value_char_of: "d < 10 \<Longrightarrow> digit_value (char_of (48 + d :: nat)) = d"
  by (simp add: digit_value_def)

lemma digits_of_digits: "digits_of n \<noteq> [] \<and> (\<forall>c\<in>set (digits_of n). isDigit c)"
proof (induction n rule: digits_of.induct)
  case (1 n)
  show ?case
  proof (cases "n < 10")
    case True
    then show ?thesis
      by (subst (1 2) digits_of.simps) (simp add: isDigit_char_of)
  next
    case False
    with 1 show ?thesis
      by (subst (1 2) digits_of.simps) (simp add: isDigit_char_of)
  qed
qed

lemma parseInt_snoc: "parseInt (ds @ [c]) = 10 * parseInt ds + digit_value c"
  by (simp add: parseInt_def)

lemma parseInt_digits_of: "parseInt (digits_of n) = n"
proof (induction n rule: digits_of.induct)
  case (1 n)
  show ?case
  proof (cases "n < 10")
    case True
    then show ?thesis
      by (subst digits_of.simps) (simp add: parseInt_def digit_value_char_of)
  next
    case False
    with 1 show ?thesis
      by (subst digits_of.simps) (simp add: parseInt_snoc digit_value_char_of)
  qed
qed

lemma isUpper_char_of: "m < 26 \<Longrightarrow> isUpper (char_of (65 + m :: nat))"
  by (simp add: isUpper_def)

lemma bijective26_upper: "\<forall>c\<in>set (bijective26 k). isUpper c"
proof (induction k rule: bijective26.induct)
  case (1 k)
  show ?case
  proof (cases "k = 0")
    case True
    then show ?thesis
      by (subst bijective26.simps) simp
  next
    case False
    with 1 show ?thesis
      by (subst bijective26.simps) (simp add: isUpper_char_of)
  qed
qed

lemma bijective26_not_empty: "0 < k \<Longrightarrow> bijective26 k \<noteq> []"
  by (subst bijective26.simps) simp

lemma parseCellId_grid_id:
  "0 < k \<Longrightarrow> parseCellId (bijective26 k @ digits_of row) = Inr (bijective26 k, row)"
  using parseCellId_letters_digits [of "bijective26 k" "digits_of row"]
  by (simp add: bijective26_not_empty bijective26_upper digits_of_digits parseInt_digits_of)

lemma getColumnHeaders_nth:
  assumes "col < nat n"
  shows "getColumnHeaders n ! col = bijective26 (Suc col)"
proof -
  from assms have "col < length [1..n]" and "[1..n] ! col = 1 + int col"
    by simp_all
  then have "map (\<lambda>k. bijective26 (nat k)) [1..n] ! col = bijective26 (nat (1 + int col))"
    by (simp only: nth_map)
  moreover have "nat (1 + int col) = Suc col"
    by arith
  ultimately show ?thesis
    by (simp only: getColumnHeaders_map)
qed

lemma grid_id_parses:
  assumes "col < nat n"
  shows "parses (getColumnHeaders n ! col @ digits_of row)"
  using assms by (simp add: getColumnHeaders_nth parseCellId_grid_id parses_def)

section \<open>The cells that SUM reads\<close>

lemma sumRange_cols_foldl:
  "sumRange_cols cs row col endCode sum0 =
     foldl (add_cell cs) sum0 (map (\<lambda>col. fromCharCode col # digits_of row) [col..<Suc endCode])"
proof (induction cs row col endCode sum0 rule: sumRange_cols.induct)
  case (1 cs row col endCode sum0)
  show ?case
  proof (cases "col \<le> endCode")
    case True
    have step: "sumRange_cols cs row col endCode sum0 =
        sumRange_cols cs row (col + 1) endCode
          (num_add sum0 (parseFloat (cellValue_value cs (fromCharCode col # digits_of row))))"
      using True by (subst sumRange_cols.simps) simp
    have list: "[col..<Suc endCode] = col # [col + 1..<Suc endCode]"
      using True by (simp add: upt_conv_Cons del: upt_Suc)
    show ?thesis
      using "1.IH" [OF True] by (simp add: step list add_cell_def del: upt_Suc)
  next
    case False
    then show ?thesis
      by (subst sumRange_cols.simps) simp
  qed
qed

lemma sumRange_rows_foldl:
  assumes "charCodeAt0 startCol = Some a" and "charCodeAt0 endCol = Some b"
  shows "sumRange_rows cs startCol endCol row endRow sum0 =
     foldl (add_cell cs) sum0
       (concat (map (\<lambda>row. map (\<lambda>col. fromCharCode col # digits_of row) [a..<Suc b])
                    [row..<Suc endRow]))"
  using assms
proof (induction cs startCol endCol row endRow sum0 rule: sumRange_rows.induct)
  case (1 cs startCol endCol row endRow sum0)
  show ?case
  proof (cases "row \<le> endRow")
    case True
    have step: "sumRange_rows cs startCol endCol row endRow sum0 =
        sumRange_rows cs startCol endCol (row + 1) endRow (sumRange_cols cs row a b sum0)"
      using True "1.prems" by (subst sumRange_rows.simps) simp
    have list: "[row..<Suc endRow] = row # [row + 1..<Suc endRow]"
      using True by (simp add: upt_conv_Cons del: upt_Suc)
    show ?thesis
      using "1.IH" [OF True "1.prems"] "1.prems"
      by (simp add: step list sumRange_cols_foldl del: upt_Suc)
  next
    case False
    then show ?thesis
      by (subst sumRange_rows.simps) simp
  qed
qed

lemma sumRange_visited:
  assumes "startCol \<noteq> []" and "endCol \<noteq> []"
  shows "sumRange cs startCol startRow endCol endRow =
    foldl (add_cell cs) (Fin 0) (visited_cells (hd startCol) startRow (hd endCol) endRow)"
proof -
  from assms have "charCodeAt0 startCol = Some (of_char (hd startCol))"
    and "charCodeAt0 endCol = Some (of_char (hd endCol))"
    by (cases startCol; cases endCol; simp add: charCodeAt0_def)+
  then show ?thesis
    unfolding sumRange_def visited_cells_def by (rule sumRange_rows_foldl)
qed

lemma num_add_NaN [simp]: "num_add x NaN = NaN"
  by (cases x) simp_all

lemma foldl_add_cell_NaN: "foldl (add_cell cs) NaN ks = NaN"
  by (induction ks) (simp_all add: add_cell_def)

lemma parseFloat_Undefined: "parseFloat Undefined = NaN"
  by (simp add: parseFloat_def toString_def parseFloat_string_def strip_sign_def
      isWhiteSpace_def startsWith_def isDigit_def)

lemma foldl_add_cell_missing:
  assumes "k \<in> set ks" and "cells_get cs k = None"
  shows "foldl (add_cell cs) sum0 ks = NaN"
  using assms(1)
proof (induction ks arbitrary: sum0)
  case Nil
  then show ?case by simp
next
  case (Cons k' ks)
  show ?case
  proof (cases "k' = k")
    case True
    with assms(2) have "add_cell cs sum0 k' = NaN"
      by (simp add: add_cell_def cellValue_value_def parseFloat_Undefined)
    then show ?thesis
      by (simp add: foldl_add_cell_NaN)
  next
    case False
    with Cons show ?thesis by simp
  qed
qed

text \<open>
  Claim C10. \<open>sumRange\<close> adds up the cells whose ids are built from the first character
  of each column label only: its result is the sum over \<open>visited_cells\<close> of the first
  characters, and it does not change when each label is cut down to its first character.
\<close>

theorem sumRange_first_characters:
  assumes "startCol \<noteq> []" and "endCol \<noteq> []"
  shows "sumRange cs startCol startRow endCol endRow =
      foldl (add_cell cs) (Fin 0) (visited_cells (hd startCol) startRow (hd endCol) endRow)
    \<and> sumRange cs startCol startRow endCol endRow =
      sumRange cs [hd startCol] startRow [hd endCol] endRow"
  using assms by (simp add: sumRange_visited)

text \<open>
  For \<open>SUM(AA1:AB2)\<close> the cells read are \<open>A1\<close> and \<open>A2\<close>: with 1 and 2 there and other
  numbers in \<open>AA1\<close>, \<open>AA2\<close>, \<open>AB1\<close> and \<open>AB2\<close>, the sum is 3.
\<close>

theorem sumRange_first_characters_witness:
  "visited_cells (hd ''AA'') 1 (hd ''AB'') 2 = [''A1'', ''A2'']
   \<and> sumRange [(''A1'', formula_value '''' (Str ''1'')),
               (''A2'', formula_value '''' (Str ''2'')),
               (''AA1'', formula_value '''' (Str ''10'')),
               (''AA2'', formula_value '''' (Str ''20'')),
               (''AB1'', formula_value '''' (Str ''30'')),
               (''AB2'', formula_value '''' (Str ''40''))] ''AA'' 1 ''AB'' 2
     = foldl (add_cell [(''A1'', formula_value '''' (Str ''1'')),
               (''A2'', formula_value '''' (Str ''2'')),
               (''AA1'', formula_value '''' (Str ''10'')),
               (''AA2'', formula_value '''' (Str ''20'')),
               (''AB1'', formula_value '''' (Str ''30'')),
               (''AB2'', formula_value '''' (Str ''40''))]) (Fin 0) [''A1'', ''A2'']
   \<and> evaluateExpression arithmetic_evaluator
        [(''A1'', formula_value '''' (Str ''1'')),
         (''A2'', formula_value '''' (Str ''2'')),
         (''AA1'', formula_value '''' (Str ''10'')),
         (''AA2'', formula_value '''' (Str ''20'')),
         (''AB1'', formula_value '''' (Str ''30'')),
         (''AB2'', formula_value '''' (Str ''40''))] ''SUM(AA1:AB2)'' = Inr (Num (Fin 3))"
proof -
  let ?cs = "[(''A1'', formula_value '''' (Str ''1'')),
               (''A2'', formula_value '''' (Str ''2'')),
               (''AA1'', formula_value '''' (Str ''10'')),
               (''AA2'', formula_value '''' (Str ''20'')),
               (''AB1'', formula_value '''' (Str ''30'')),
               (''AB2'', formula_value '''' (Str ''40''))]"
  have visited: "visited_cells (hd ''AA'') 1 (hd ''AB'') 2 = [''A1'', ''A2'']"
    by code_simp
  have "sumRange ?cs ''AA'' 1 ''AB'' 2 =
      foldl (add_cell ?cs) (Fin 0) (visited_cells (hd ''AA'') 1 (hd ''AB'') 2)"
    using sumRange_first_characters [of "''AA''" "''AB''" ?cs 1 2] by simp
  moreover have "evaluateExpression arithmetic_evaluator ?cs ''SUM(AA1:AB2)'' = Inr (Num (Fin 3))"
    by code_simp
  ultimately show ?thesis
    using visited by simp
qed

section \<open>Cells that were never set\<close>

text \<open>
  Claim C1 says that \<open>sumRange\<close> counts a cell without a record as 0. The code reads the
  property \<open>value\<close> of the number 0 that stands in for the record, which is \<open>undefined\<close>,
  and \<open>parseFloat(undefined)\<close> is \<open>NaN\<close>: whenever one of the visited cells has no record
  the sum is \<open>NaN\<close>.
\<close>

theorem sumRange_missing_cell_is_NaN:
  assumes "startCol \<noteq> []" and "endCol \<noteq> []"
    and "k \<in> set (visited_cells (hd startCol) startRow (hd endCol) endRow)"
    and "cells_get cs k = None"
  shows "sumRange cs startCol startRow endCol endRow = NaN"
  using assms by (simp add: sumRange_visited foldl_add_cell_missing)

text \<open>
  With no cell set, \<open>SUM(A1:A3)\<close> is \<open>NaN\<close> and not 0; with only \<open>A1 = 1\<close> set, \<open>SUM(A1:A2)\<close>
  is \<open>NaN\<close> and not 1, and the formula shows the empty text.
\<close>

theorem sumRange_missing_cell_is_NaN_witness:
  "sumRange [] ''A'' 1 ''A'' 3 = NaN
   \<and> sumRange [(''A1'', formula_value '''' (Str ''1''))] ''A'' 1 ''A'' 2 = NaN
   \<and> evaluateExpression arithmetic_evaluator
        [(''A1'', formula_value '''' (Str ''1''))] ''SUM(A1:A2)'' = Inr (Str '''')"
proof -
  have "''A1'' \<in> set (visited_cells (hd ''A'') 1 (hd ''A'') 3)"
    by code_simp
  then have "sumRange [] ''A'' 1 ''A'' 3 = NaN"
    by (intro sumRange_missing_cell_is_NaN [of _ _ "''A1''"]) (simp_all add: cells_get_def)
  moreover have "sumRange [(''A1'', formula_value '''' (Str ''1''))] ''A'' 1 ''A'' 2 = NaN"
    by code_simp
  moreover have "evaluateExpression arithmetic_evaluator
      [(''A1'', formula_value '''' (Str ''1''))] ''SUM(A1:A2)'' = Inr (Str '''')"
    by code_simp
  ultimately show ?thesis
    by simp
qed

text \<open>
  Claim C2 says that a reference to a cell that was never set is replaced by 0, so that
  \<open>Z99+1\<close> is 1. The code replaces it by the text of \<open>undefined\<close>: the text handed to
  \<open>eval\<close> is \<open>undefined+1\<close>, whose value is \<open>NaN\<close>, and the formula shows the empty text.
\<close>

theorem evaluateExpression_missing_reference:
  "substituted_expression [] ''Z99+1'' = Inr (Some ''undefined+1'')
   \<and> arith_eval ''undefined+1'' = Some (Returns (Num NaN))
   \<and> evaluateExpression arithmetic_evaluator [] ''Z99+1'' = Inr (Str '''')"
proof -
  have "substituted_expression [] ''Z99+1'' = Inr (Some ''undefined+1'')"
    by code_simp
  moreover have "arith_eval ''undefined+1'' = Some (Returns (Num NaN))"
    by code_simp
  moreover have "evaluateExpression arithmetic_evaluator [] ''Z99+1'' = Inr (Str '''')"
    by code_simp
  ultimately show ?thesis
    by simp
qed

section \<open>The two sentinels of evaluateExpression\<close>

lemma isNaN_NA: "isNaN (Str ''N/A'')"
  by code_simp

lemma guarded_eval_NA:
  "guarded_eval ev cs s = Str ''N/A'' \<longleftrightarrow> ev cs s = Throws"
proof (cases "ev cs s")
  case Throws
  then show ?thesis
    by (simp add: guarded_eval_def)
next
  case (Returns v)
  then show ?thesis
    using isNaN_NA by (auto simp: guarded_eval_def)
qed

lemma substituted_expression_None:
  "substituted_expression cs e = Inr None \<longleftrightarrow> unsupported_function e"
  by (auto simp: substituted_expression_def unsupported_function_def Let_def
      split: option.splits sum.splits)

text \<open>
  Claim C6. \<open>evaluateExpression\<close> never raises. It returns \<open>"N/A"\<close> exactly when the
  expression is a call of an unsupported function or \<open>eval\<close> throws on the substituted
  text; when \<open>eval\<close> returns a value \<open>v\<close> it returns \<open>""\<close> if \<open>isNaN(v)\<close> and \<open>v\<close> itself
  otherwise.
\<close>

theorem evaluateExpression_sentinels:
  "(evaluateExpression ev cs e = Inr (Str ''N/A'') \<longleftrightarrow>
      unsupported_function e \<or>
      (\<exists>s. substituted_expression cs e = Inr (Some s) \<and> ev cs s = Throws))
   \<and> (\<forall>s v. substituted_expression cs e = Inr (Some s) \<and> ev cs s = Returns v \<longrightarrow>
          evaluateExpression ev cs e = Inr (if isNaN v then Str '''' else v))
   \<and> (unsupported_function e \<longleftrightarrow> substituted_expression cs e = Inr None)
   \<and> (\<exists>v. evaluateExpression ev cs e = Inr v)"
proof (intro conjI allI impI)
  show "evaluateExpression ev cs e = Inr (Str ''N/A'') \<longleftrightarrow>
      unsupported_function e \<or>
      (\<exists>s. substituted_expression cs e = Inr (Some s) \<and> ev cs s = Throws)"
    using substituted_expression_total [of cs e] substituted_expression_None [of cs e]
    by (auto simp: evaluateExpression_def guarded_eval_NA split: option.splits)
  show "evaluateExpression ev cs e = Inr (if isNaN v then Str '''' else v)"
    if "substituted_expression cs e = Inr (Some s) \<and> ev cs s = Returns v" for s v
    using that by (simp add: evaluateExpression_def guarded_eval_def)
  show "unsupported_function e \<longleftrightarrow> substituted_expression cs e = Inr None"
    by (simp add: substituted_expression_None)
  show "\<exists>v. evaluateExpression ev cs e = Inr v"
    by (rule evaluateExpression_total)
qed

text \<open>
  The four outcomes on examples: an unsupported function, a text on which \<open>eval\<close>
  throws, a value that is \<open>NaN\<close>, and a number.
\<close>

theorem evaluateExpression_sentinels_witness:
  "unsupported_function ''FOO(A1:A2)''
   \<and> evaluateExpression arithmetic_evaluator [] ''FOO(A1:A2)'' = Inr (Str ''N/A'')
   \<and> substituted_expression [] ''1+'' = Inr (Some ''1+'')
   \<and> arith_eval ''1+'' = Some Throws
   \<and> evaluateExpression arithmetic_evaluator [] ''1+'' = Inr (Str ''N/A'')
   \<and> evaluateExpression arithmetic_evaluator [] ''NaN+1'' = Inr (Str '''')
   \<and> evaluateExpression arithmetic_evaluator [] ''5+3'' = Inr (Num (Fin 8))"
proof -
  have foo: "unsupported_function ''FOO(A1:A2)''"
    by code_simp
  have sub: "substituted_expression [] ''1+'' = Inr (Some ''1+'')"
    by code_simp
  have dangling: "arith_eval ''1+'' = Some Throws"
    by code_simp
  then have thr: "arithmetic_evaluator [] ''1+'' = Throws"
    by (simp add: arithmetic_evaluator_def)
  have nan: "substituted_expression [] ''NaN+1'' = Inr (Some ''NaN+1'')
      \<and> arithmetic_evaluator [] ''NaN+1'' = Returns (Num NaN)"
    by code_simp
  have num: "substituted_expression [] ''5+3'' = Inr (Some ''5+3'')
      \<and> arithmetic_evaluator [] ''5+3'' = Returns (Num (Fin 8))"
    by code_simp
  have "evaluateExpression arithmetic_evaluator [] ''FOO(A1:A2)'' = Inr (Str ''N/A'')"
    using evaluateExpression_sentinels [of arithmetic_evaluator "[]" "''FOO(A1:A2)''"] foo
    by simp
  moreover have "evaluateExpression arithmetic_evaluator [] ''1+'' = Inr (Str ''N/A'')"
    using evaluateExpression_sentinels [of arithmetic_evaluator "[]" "''1+''"] sub thr
    by simp
  moreover have "evaluateExpression arithmetic_evaluator [] ''NaN+1'' = Inr (Str '''')"
    using evaluateExpression_sentinels [of arithmetic_evaluator "[]" "''NaN+1''"] nan
    by (simp add: isNaN_def)
  moreover have "evaluateExpression arithmetic_evaluator [] ''5+3'' = Inr (Num (Fin 8))"
    using evaluateExpression_sentinels [of arithmetic_evaluator "[]" "''5+3''"] num
    by (simp add: isNaN_def)
  ultimately show ?thesis
    using foo sub dangling by simp
qed

section \<open>The table under assignment\<close>

lemma cells_get_set:
  "cells_get (cells_set cs k c) k' = (if k' = k then Some c else cells_get cs k')"
  by (induction cs) (auto simp: cells_get_def)

lemma Object_keys_set_present:
  "cells_get cs k = Some old \<Longrightarrow> Object_keys (cells_set cs k c) = Object_keys cs"
  by (induction cs) (auto simp: cells_get_def Object_keys_def split: if_splits)

lemma Object_keys_set_absent:
  "cells_get cs k = None \<Longrightarrow> Object_keys (cells_set cs k c) = Object_keys cs @ [k]"
  by (induction cs) (auto simp: cells_get_def Object_keys_def split: if_splits)

lemma cells_get_None_iff: "cells_get cs k = None \<longleftrightarrow> k \<notin> set (Object_keys cs)"
  by (simp add: cells_get_def Object_keys_def map_of_eq_None_iff)

section \<open>What one pass of updateDependentCells changes\<close>

lemma has_formula_set:
  "has_formula (cells_set cs k (formula_value f v)) k' = (k' = k \<or> has_formula cs k')"
  by (simp add: has_formula_def cells_get_set formula_value_def)

lemma has_formula_present:
  "has_formula cs k \<Longrightarrow> \<exists>c f. cells_get cs k = Some c \<and> formula c = Some f"
  by (auto simp: has_formula_def split: option.splits)

text \<open>A record that does not contain the updated id is left as it is.\<close>

lemma updateDependentCells_loop_frame:
  assumes "cells_get (cells st) k = Some c" and "\<not> contains_id c u"
  shows "cells_get (cells (snd (updateDependentCells_loop ev u ks st))) k = Some c"
  using assms(1)
proof (induction ks arbitrary: st)
  case Nil
  then show ?case by simp
next
  case (Cons k' ks)
  show ?case
  proof (cases "k' = k")
    case True
    with Cons assms(2) show ?thesis
      by (auto simp: contains_id_def split: option.splits)
  next
    case False
    with Cons show ?thesis
      by (auto simp: cells_get_set split: option.splits sum.splits)
  qed
qed

text \<open>
  No pass changes a stored formula, and no pass adds or removes an id.
\<close>

lemma updateDependentCells_loop_formula:
  "map_option formula (cells_get (cells (snd (updateDependentCells_loop ev u ks st))) k)
     = map_option formula (cells_get (cells st) k)"
proof (induction ks arbitrary: st)
  case Nil
  then show ?case by simp
next
  case (Cons k' ks)
  show ?case
  proof (cases "cells_get (cells st) k'")
    case None
    then show ?thesis by simp
  next
    case (Some c)
    show ?thesis
    proof (cases "formula c")
      case None
      with Some show ?thesis by simp
    next
      case f: (Some f)
      show ?thesis
      proof (cases "str_includes f u")
        case False
        with Some f Cons show ?thesis by simp
      next
        case True
        show ?thesis
        proof (cases "parseCellId k'")
          case (Inl e)
          with Some f True show ?thesis by simp
        next
          case (Inr p)
          obtain v where v: "evaluateExpression ev (cells st) (substring1 f) = Inr v"
            using evaluateExpression_total by blast
          let ?st = "st\<lparr>cells := cells_set (cells st) k' (formula_value f v),
                         rendered := rendered st @ [(k', v)]\<rparr>"
          have "map_option formula (cells_get (cells ?st) k)
              = map_option formula (cells_get (cells st) k)"
            using Some f by (simp add: cells_get_set formula_value_def)
          with Cons [of ?st] Some f True Inr v show ?thesis
            by (simp split: prod.splits)
        qed
      qed
    qed
  qed
qed

lemma updateDependentCells_loop_keys:
  "Object_keys (cells (snd (updateDependentCells_loop ev u ks st))) = Object_keys (cells st)"
proof (induction ks arbitrary: st)
  case Nil
  then show ?case by simp
next
  case (Cons k' ks)
  then show ?case
    by (auto simp: Object_keys_set_present split: option.splits sum.splits)
qed

text \<open>A pass over ids that do not include \<open>k\<close> leaves the record of \<open>k\<close> as it is.\<close>

lemma updateDependentCells_loop_other:
  "k \<notin> set ks \<Longrightarrow>
    cells_get (cells (snd (updateDependentCells_loop ev u ks st))) k = cells_get (cells st) k"
proof (induction ks arbitrary: st)
  case Nil
  then show ?case by simp
next
  case (Cons k' ks)
  then show ?case
    by (auto simp: cells_get_set split: option.splits sum.splits)
qed

text \<open>
  The step of the pass at an id whose record contains \<open>u\<close>, when the id is well formed.
\<close>

lemma updateDependentCells_loop_step:
  assumes "cells_get (cells st) k = Some c" and "formula c = Some f" and "str_includes f u"
    and "parses k" and "evaluateExpression ev (cells st) (substring1 f) = Inr v"
  shows "updateDependentCells_loop ev u (k # ks) st =
    updateDependentCells_loop ev u ks
      (st\<lparr>cells := cells_set (cells st) k (formula_value f v),
          rendered := rendered st @ [(k, v)]\<rparr>)"
  using assms by (auto simp: parses_def split: sum.splits)

lemma updateDependentCells_loop_skip:
  assumes "cells_get (cells st) k = Some c" and "formula c = Some f" and "\<not> str_includes f u"
  shows "updateDependentCells_loop ev u (k # ks) st = updateDependentCells_loop ev u ks st"
  using assms by simp

text \<open>
  When every id of the pass is a well-formed cell id with a record that has a formula,
  the pass ends without an error.
\<close>

lemma updateDependentCells_loop_normal:
  assumes "\<forall>k\<in>set ks. parses k \<and> has_formula (cells st) k"
  shows "fst (updateDependentCells_loop ev u ks st) = None"
  using assms
proof (induction ks arbitrary: st)
  case Nil
  then show ?case by simp
next
  case (Cons k ks)
  from Cons.prems obtain c f where c: "cells_get (cells st) k = Some c" "formula c = Some f"
    using has_formula_present [of "cells st" k] by auto
  from Cons.prems have k: "parses k"
    by simp
  show ?case
  proof (cases "str_includes f u")
    case False
    from Cons.prems have "fst (updateDependentCells_loop ev u ks st) = None"
      by (intro Cons.IH) simp
    then show ?thesis
      using c False by (simp add: updateDependentCells_loop_skip)
  next
    case True
    obtain v where v: "evaluateExpression ev (cells st) (substring1 f) = Inr v"
      using evaluateExpression_total by blast
    let ?st = "st\<lparr>cells := cells_set (cells st) k (formula_value f v),
                   rendered := rendered st @ [(k, v)]\<rparr>"
    from Cons.prems have "fst (updateDependentCells_loop ev u ks ?st) = None"
      by (intro Cons.IH) (simp add: has_formula_set)
    then show ?thesis
      using updateDependentCells_loop_step [OF c True k v] by simp
  qed
qed

lemma updateDependentCells_loop_append:
  "fst (updateDependentCells_loop ev u ks1 st) = None \<Longrightarrow>
    updateDependentCells_loop ev u (ks1 @ ks2) st =
      updateDependentCells_loop ev u ks2 (snd (updateDependentCells_loop ev u ks1 st))"
  by (induction ks1 arbitrary: st) (auto split: option.splits sum.splits)

lemma depends_on_set_same_formula:
  assumes "cells_get cs k = Some c" and "formula c = Some f"
  shows "depends_on (cells_set cs k (formula_value f v)) u = depends_on cs u"
proof
  fix k'
  show "depends_on (cells_set cs k (formula_value f v)) u k' = depends_on cs u k'"
    using assms by (simp add: depends_on_def contains_id_def cells_get_set formula_value_def)
qed

text \<open>
  The assignments to \<open>innerText\<close> that a pass makes: one for every id of the pass whose
  record contains \<open>u\<close>, in order, each with the value that the table holds for the id
  when the pass is over.
\<close>

lemma updateDependentCells_loop_rendered:
  assumes "distinct ks" and "\<forall>k\<in>set ks. parses k \<and> has_formula (cells st) k"
  shows "rendered (snd (updateDependentCells_loop ev u ks st)) =
    rendered st @
    map (\<lambda>k. (k, cellValue_value (cells (snd (updateDependentCells_loop ev u ks st))) k))
      (filter (depends_on (cells st) u) ks)"
  using assms
proof (induction ks arbitrary: st)
  case Nil
  then show ?case by simp
next
  case (Cons k ks)
  from Cons.prems obtain c f where c: "cells_get (cells st) k = Some c" "formula c = Some f"
    using has_formula_present [of "cells st" k] by auto
  from Cons.prems have k: "parses k"
    by simp
  show ?case
  proof (cases "str_includes f u")
    case False
    then have "\<not> depends_on (cells st) u k"
      using c by (simp add: depends_on_def contains_id_def)
    moreover have "updateDependentCells_loop ev u (k # ks) st = updateDependentCells_loop ev u ks st"
      using c False by (rule updateDependentCells_loop_skip)
    moreover from Cons.prems have "rendered (snd (updateDependentCells_loop ev u ks st)) =
        rendered st @
        map (\<lambda>k. (k, cellValue_value (cells (snd (updateDependentCells_loop ev u ks st))) k))
          (filter (depends_on (cells st) u) ks)"
      by (intro Cons.IH) simp_all
    ultimately show ?thesis by simp
  next
    case True
    obtain v where v: "evaluateExpression ev (cells st) (substring1 f) = Inr v"
      using evaluateExpression_total by blast
    let ?st = "st\<lparr>cells := cells_set (cells st) k (formula_value f v),
                   rendered := rendered st @ [(k, v)]\<rparr>"
    let ?end = "snd (updateDependentCells_loop ev u ks ?st)"
    have step: "updateDependentCells_loop ev u (k # ks) st = updateDependentCells_loop ev u ks ?st"
      using c True k v by (rule updateDependentCells_loop_step)
    have same: "depends_on (cells ?st) u = depends_on (cells st) u"
      using c by (simp add: depends_on_set_same_formula)
    from Cons.prems have "rendered ?end =
        rendered ?st @ map (\<lambda>k. (k, cellValue_value (cells ?end) k)) (filter (depends_on (cells ?st) u) ks)"
      by (intro Cons.IH) (simp_all add: has_formula_set)
    moreover from Cons.prems have "cells_get (cells ?end) k = cells_get (cells ?st) k"
      by (intro updateDependentCells_loop_other) simp
    then have "cellValue_value (cells ?end) k = v"
      by (simp add: cellValue_value_def cells_get_set formula_value_def)
    moreover have "depends_on (cells st) u k"
      using c True by (simp add: depends_on_def contains_id_def)
    ultimately show ?thesis
      unfolding step same by simp
  qed
qed

text \<open>
  The value that a pass stores for a dependent cell is the value of its formula in
  the table as the pass found it on reaching the cell, that is, after the ids before it.
\<close>

lemma updateDependentCells_loop_value:
  assumes "distinct (ks1 @ k # ks2)"
    and "\<forall>k'\<in>set (ks1 @ k # ks2). parses k' \<and> has_formula (cells st) k'"
    and "cells_get (cells st) k = Some c" and "formula c = Some f" and "str_includes f u"
  shows "\<exists>v. evaluateExpression ev (cells (snd (updateDependentCells_loop ev u ks1 st)))
                (substring1 f) = Inr v \<and>
             cells_get (cells (snd (updateDependentCells_loop ev u (ks1 @ k # ks2) st))) k =
               Some (formula_value f v)"
proof -
  let ?st1 = "snd (updateDependentCells_loop ev u ks1 st)"
  obtain v where v: "evaluateExpression ev (cells ?st1) (substring1 f) = Inr v"
    using evaluateExpression_total by blast
  let ?st2 = "?st1\<lparr>cells := cells_set (cells ?st1) k (formula_value f v),
                     rendered := rendered ?st1 @ [(k, v)]\<rparr>"
  from assms(2) have "fst (updateDependentCells_loop ev u ks1 st) = None"
    by (intro updateDependentCells_loop_normal) simp
  then have split: "updateDependentCells_loop ev u (ks1 @ k # ks2) st =
      updateDependentCells_loop ev u (k # ks2) ?st1"
    by (rule updateDependentCells_loop_append)
  from assms(1) have "cells_get (cells ?st1) k = cells_get (cells st) k"
    by (intro updateDependentCells_loop_other) simp
  with assms(3) have c: "cells_get (cells ?st1) k = Some c"
    by simp
  from assms(2) have k: "parses k"
    by simp
  have step: "updateDependentCells_loop ev u (k # ks2) ?st1 = updateDependentCells_loop ev u ks2 ?st2"
    using c assms(4,5) k v by (rule updateDependentCells_loop_step)
  from assms(1) have "cells_get (cells (snd (updateDependentCells_loop ev u ks2 ?st2))) k =
      cells_get (cells ?st2) k"
    by (intro updateDependentCells_loop_other) simp
  then have "cells_get (cells (snd (updateDependentCells_loop ev u (ks1 @ k # ks2) st))) k =
      Some (formula_value f v)"
    unfolding split step by (simp add: cells_get_set)
  with v show ?thesis
    by blast
qed

text \<open>
  Both versions of \<open>evaluateFormula\<close> keep the ids of the table distinct, and that of
  \<open>script.js\<close> keeps the table well formed when the id of the edited cell is well formed:
  well-formed tables are what the handler builds from the empty table.
\<close>

lemma distinct_keys_set:
  "distinct (Object_keys cs) \<Longrightarrow> distinct (Object_keys (cells_set cs k c))"
  by (cases "cells_get cs k")
    (auto simp: Object_keys_set_present Object_keys_set_absent cells_get_None_iff)

lemma set_keys_set:
  "set (Object_keys (cells_set cs k c)) = insert k (set (Object_keys cs))"
  using cells_get_None_iff [of cs k]
  by (cases "cells_get cs k") (auto simp: Object_keys_set_present Object_keys_set_absent)

lemma well_formed_set:
  assumes "well_formed cs" and "parses k"
  shows "well_formed (cells_set cs k (formula_value f v))"
  using assms
  by (auto simp: well_formed_def list_all_iff distinct_keys_set set_keys_set has_formula_set)

lemma updateDependentCells_loop_well_formed:
  assumes "well_formed (cells st)"
  shows "well_formed (cells (snd (updateDependentCells_loop ev u ks st)))"
  using assms
proof (induction ks arbitrary: st)
  case Nil
  then show ?case by simp
next
  case (Cons k ks)
  show ?case
  proof (cases "fst (updateDependentCells_loop ev u [k] st) = None")
    case False
    then have "updateDependentCells_loop ev u (k # ks) st = (fst (updateDependentCells_loop ev u [k] st), st)"
      by (auto split: option.splits sum.splits if_splits)
    with Cons.prems show ?thesis by simp
  next
    case True
    then have "updateDependentCells_loop ev u ([k] @ ks) st =
        updateDependentCells_loop ev u ks (snd (updateDependentCells_loop ev u [k] st))"
      by (rule updateDependentCells_loop_append)
    moreover have "well_formed (cells (snd (updateDependentCells_loop ev u [k] st)))"
      using Cons.prems
      by (auto simp: well_formed_set parses_def split: option.splits sum.splits)
    ultimately show ?thesis
      using Cons.IH by simp
  qed
qed

lemma evaluateFormula_well_formed:
  assumes "well_formed (cells st)" and "parses cellId"
  shows "well_formed (cells (snd (evaluateFormula ev cellId innerText st)))"
proof -
  obtain v where v: "evaluateExpression ev (cells st) (substring1 (toUpperCase (trim innerText))) = Inr v"
    using evaluateExpression_total by blast
  show ?thesis
    using assms v
    by (simp add: evaluateFormula_def Let_def updateDependentCells_def
        updateDependentCells_loop_well_formed well_formed_set)
qed

lemma well_formed_empty: "well_formed []"
  by (simp add: well_formed_def Object_keys_def)

section \<open>Committing a text to a cell\<close>

lemma toUpperCase_not_equals_sign:
  "isLower c \<Longrightarrow> char_of ((of_char c :: nat) - 32) \<noteq> CHR ''=''"
proof
  assume lower: "isLower c" and "char_of ((of_char c :: nat) - 32) = CHR ''=''"
  then have "(of_char (char_of ((of_char c :: nat) - 32)) :: nat) = of_char (CHR ''='')"
    by simp
  then have "((of_char c :: nat) - 32) mod 256 = 61"
    by simp
  moreover from lower have "(of_char c :: nat) - 32 < 256"
    unfolding isLower_def by arith
  ultimately have "(of_char c :: nat) - 32 = 61"
    by simp
  with lower show False
    unfolding isLower_def by arith
qed

lemma startsWith_toUpperCase:
  "startsWith (toUpperCase s) ''='' = startsWith s ''=''"
proof (cases s)
  case Nil
  then show ?thesis
    by (simp add: startsWith_def toUpperCase_def)
next
  case (Cons c r)
  have "isLower c \<Longrightarrow> c \<noteq> CHR ''=''"
    by (auto simp: isLower_def)
  with Cons show ?thesis
    using toUpperCase_not_equals_sign [of c] by (auto simp: startsWith_def toUpperCase_def)
qed

lemma updateDependentCells_keeps_literal:
  assumes "cellId \<noteq> []"
  shows "cells_get (cells (snd (updateDependentCells ev cellId
      (st\<lparr>cells := cells_set (cells st) cellId (formula_value '''' v)\<rparr>)))) cellId
    = Some (formula_value '''' v)"
proof -
  let ?st = "st\<lparr>cells := cells_set (cells st) cellId (formula_value '''' v)\<rparr>"
  have committed: "cells_get (cells ?st) cellId = Some (formula_value '''' v)"
    by (simp add: cells_get_set)
  have independent: "\<not> contains_id (formula_value '''' v) cellId"
    using assms by (simp add: contains_id_def formula_value_def)
  show ?thesis
    unfolding updateDependentCells_def
    using committed independent by (rule updateDependentCells_loop_frame)
qed

text \<open>
  Claim C3, as stated, at the texts \<open>abc\<close> and \<open> 5 \<close> (with a space on either side).
  In \<open>script.js\<close> the values stored are \<open>ABC\<close> and \<open>5\<close>; in the second copy of the script
  the value stored for \<open> 5 \<close> is \<open>5\<close> as well. Neither is the text as entered.
\<close>

theorem evaluateFormula_literal_is_changed:
  "cellValue_value
     (cells (snd (evaluateFormula arithmetic_evaluator ''A1'' ''abc'' \<lparr>cells = [], rendered = []\<rparr>)))
     ''A1'' = Str ''ABC''
   \<and> cellValue_value
     (cells (snd (evaluateFormula arithmetic_evaluator ''A1'' '' 5 '' \<lparr>cells = [], rendered = []\<rparr>)))
     ''A1'' = Str ''5''
   \<and> cellValue_value
     (cells (snd (evaluateFormula_part_000 arithmetic_evaluator ''A1'' '' 5 ''
        \<lparr>cells = [], rendered = []\<rparr>)))
     ''A1'' = Str ''5''"
proof -
  have "cellValue_value
     (cells (snd (evaluateFormula arithmetic_evaluator ''A1'' ''abc'' \<lparr>cells = [], rendered = []\<rparr>)))
     ''A1'' = Str ''ABC''"
    by code_simp
  moreover have "cellValue_value
     (cells (snd (evaluateFormula arithmetic_evaluator ''A1'' '' 5 '' \<lparr>cells = [], rendered = []\<rparr>)))
     ''A1'' = Str ''5''"
    by code_simp
  moreover have "cellValue_value
     (cells (snd (evaluateFormula_part_000 arithmetic_evaluator ''A1'' '' 5 ''
        \<lparr>cells = [], rendered = []\<rparr>)))
     ''A1'' = Str ''5''"
    by code_simp
  ultimately show ?thesis
    by simp
qed

text \<open>
  Claim C3, amended. For every ASCII text whose trimmed form does not start with \<open>=\<close>,
  committing it to a cell stores a record whose formula is empty and whose value is the
  trimmed text, kept as a text (no conversion to a number): in \<open>script.js\<close> the trimmed
  text in upper case, in the second copy of the script the trimmed text as it is. That
  record is what the table holds for the cell when the handler is done.
\<close>

theorem evaluateFormula_literal:
  assumes "isAscii innerText" and "\<not> startsWith (trim innerText) ''=''" and "cellId \<noteq> []"
  shows "cells_get (cells (snd (evaluateFormula ev cellId innerText st))) cellId =
      Some (formula_value '''' (Str (toUpperCase (trim innerText))))
    \<and> cells_get (cells (snd (evaluateFormula_part_000 ev cellId innerText st))) cellId =
      Some (formula_value '''' (Str (trim innerText)))"
proof
  have "evaluateFormula ev cellId innerText st = updateDependentCells ev cellId
      (st\<lparr>cells := cells_set (cells st) cellId
         (formula_value '''' (Str (toUpperCase (trim innerText))))\<rparr>)"
    using assms(2) by (simp add: evaluateFormula_def startsWith_toUpperCase)
  then show "cells_get (cells (snd (evaluateFormula ev cellId innerText st))) cellId =
      Some (formula_value '''' (Str (toUpperCase (trim innerText))))"
    by (simp only: updateDependentCells_keeps_literal [OF assms(3)])
  have "evaluateFormula_part_000 ev cellId innerText st = updateDependentCells ev cellId
      (st\<lparr>cells := cells_set (cells st) cellId (formula_value '''' (Str (trim innerText)))\<rparr>)"
    using assms(2) by (simp add: evaluateFormula_part_000_def)
  then show "cells_get (cells (snd (evaluateFormula_part_000 ev cellId innerText st))) cellId =
      Some (formula_value '''' (Str (trim innerText)))"
    by (simp only: updateDependentCells_keeps_literal [OF assms(3)])
qed

text \<open>The text \<open>5\<close> is stored as the text \<open>5\<close> by both.\<close>

theorem evaluateFormula_literal_witness:
  "cells_get (cells (snd (evaluateFormula arithmetic_evaluator ''A1'' ''5''
      \<lparr>cells = [], rendered = []\<rparr>))) ''A1'' = Some (formula_value '''' (Str ''5''))
   \<and> cells_get (cells (snd (evaluateFormula_part_000 arithmetic_evaluator ''A1'' ''5''
      \<lparr>cells = [], rendered = []\<rparr>))) ''A1'' = Some (formula_value '''' (Str ''5''))"
proof -
  have "isAscii ''5''" "\<not> startsWith (trim ''5'') ''=''" "''A1'' \<noteq> []"
    by code_simp+
  from evaluateFormula_literal [OF this, of arithmetic_evaluator "\<lparr>cells = [], rendered = []\<rparr>"]
  have "cells_get (cells (snd (evaluateFormula arithmetic_evaluator ''A1'' ''5''
      \<lparr>cells = [], rendered = []\<rparr>))) ''A1'' = Some (formula_value '''' (Str (toUpperCase (trim ''5''))))
   \<and> cells_get (cells (snd (evaluateFormula_part_000 arithmetic_evaluator ''A1'' ''5''
      \<lparr>cells = [], rendered = []\<rparr>))) ''A1'' = Some (formula_value '''' (Str (trim ''5'')))" .
  moreover have "toUpperCase (trim ''5'') = ''5''" "trim ''5'' = ''5''"
    by code_simp+
  ultimately show ?thesis
    by simp
qed

text \<open>
  Claim C8, as stated, at the text \<open>=a1+a2\<close>. In \<open>script.js\<close> the formula stored is
  \<open>=A1+A2\<close>, with the leading \<open>=\<close>, and not the body \<open>A1+A2\<close>. In the second copy of the
  script the record has no formula at all: the text \<open>=A1+A2\<close> is stored under the
  property \<open>updatedFormula\<close>.
\<close>

theorem evaluateFormula_formula_keeps_equals_sign:
  "map_option formula
     (cells_get (cells (snd (evaluateFormula arithmetic_evaluator ''A3'' ''=a1+a2''
        \<lparr>cells = [(''A1'', formula_value '''' (Str ''5'')),
                   (''A2'', formula_value '''' (Str ''3''))], rendered = []\<rparr>))) ''A3'')
     = Some (Some ''=A1+A2'')
   \<and> ''=A1+A2'' \<noteq> ''A1+A2''
   \<and> cells_get (cells (snd (evaluateFormula_part_000 arithmetic_evaluator ''A3'' ''=a1+a2''
        \<lparr>cells = [(''A1'', formula_value '''' (Str ''5'')),
                   (''A2'', formula_value '''' (Str ''3''))], rendered = []\<rparr>))) ''A3''
     = Some \<lparr>formula = None, updatedFormula = Some ''=A1+A2'', value = Num (Fin 8)\<rparr>"
proof -
  have "map_option formula
     (cells_get (cells (snd (evaluateFormula arithmetic_evaluator ''A3'' ''=a1+a2''
        \<lparr>cells = [(''A1'', formula_value '''' (Str ''5'')),
                   (''A2'', formula_value '''' (Str ''3''))], rendered = []\<rparr>))) ''A3'')
     = Some (Some ''=A1+A2'')"
    by code_simp
  moreover have "cells_get (cells (snd (evaluateFormula_part_000 arithmetic_evaluator ''A3'' ''=a1+a2''
        \<lparr>cells = [(''A1'', formula_value '''' (Str ''5'')),
                   (''A2'', formula_value '''' (Str ''3''))], rendered = []\<rparr>))) ''A3''
     = Some \<lparr>formula = None, updatedFormula = Some ''=A1+A2'', value = Num (Fin 8)\<rparr>"
    by code_simp
  ultimately show ?thesis
    by simp
qed

text \<open>
  Claim C8, amended, for \<open>script.js\<close>. For every ASCII text whose trimmed form starts with
  \<open>=\<close> (so for every text that starts with \<open>=\<close>), after committing it the formula stored
  for the cell is the whole text, trimmed and in upper case, with its leading \<open>=\<close>; the
  formulas of the other cells are as before, and no pass of \<open>updateDependentCells\<close>
  changes a formula.
\<close>

theorem evaluateFormula_stores_formula:
  assumes "isAscii innerText" and "startsWith (trim innerText) ''=''"
  shows "map_option formula (cells_get (cells (snd (evaluateFormula ev cellId innerText st))) cellId)
      = Some (Some (toUpperCase (trim innerText)))
    \<and> startsWith (toUpperCase (trim innerText)) ''=''
    \<and> (\<forall>k. k \<noteq> cellId \<longrightarrow>
          map_option formula (cells_get (cells (snd (evaluateFormula ev cellId innerText st))) k)
            = map_option formula (cells_get (cells st) k))
    \<and> (\<forall>u k st'. map_option formula (cells_get (cells (snd (updateDependentCells ev u st'))) k)
            = map_option formula (cells_get (cells st') k))"
proof -
  let ?f = "toUpperCase (trim innerText)"
  obtain v where v: "evaluateExpression ev (cells st) (substring1 ?f) = Inr v"
    using evaluateExpression_total by blast
  let ?st = "st\<lparr>cells := cells_set (cells st) cellId (formula_value ?f v),
                 rendered := rendered st @ [(cellId, v)]\<rparr>"
  have run: "evaluateFormula ev cellId innerText st = updateDependentCells ev cellId ?st"
    using assms(2) v by (simp add: evaluateFormula_def startsWith_toUpperCase)
  have after: "map_option formula (cells_get (cells (snd (evaluateFormula ev cellId innerText st))) k)
      = map_option formula (cells_get (cells ?st) k)" for k
    unfolding run updateDependentCells_def by (rule updateDependentCells_loop_formula)
  have "map_option formula (cells_get (cells (snd (evaluateFormula ev cellId innerText st))) cellId)
      = Some (Some ?f)"
    unfolding after by (simp add: cells_get_set formula_value_def)
  moreover have "startsWith ?f ''=''"
    using assms(2) by (simp add: startsWith_toUpperCase)
  moreover have "map_option formula (cells_get (cells (snd (evaluateFormula ev cellId innerText st))) k)
      = map_option formula (cells_get (cells st) k)" if "k \<noteq> cellId" for k
    unfolding after using that by (simp add: cells_get_set)
  moreover have "map_option formula (cells_get (cells (snd (updateDependentCells ev u st'))) k)
      = map_option formula (cells_get (cells st') k)" for u k st'
    unfolding updateDependentCells_def by (rule updateDependentCells_loop_formula)
  ultimately show ?thesis
    by blast
qed

text \<open>
  The text \<open>=a1+a2\<close> committed to \<open>A3\<close> is stored as the formula \<open>=A1+A2\<close>, and a later
  edit of \<open>A1\<close>, which re-evaluates \<open>A3\<close>, leaves that formula as it is.
\<close>

theorem evaluateFormula_stores_formula_witness:
  "map_option formula
     (cells_get (cells (snd (evaluateFormula arithmetic_evaluator ''A3'' ''=a1+a2''
        \<lparr>cells = [(''A1'', formula_value '''' (Str ''5'')),
                   (''A2'', formula_value '''' (Str ''3''))], rendered = []\<rparr>))) ''A3'')
     = Some (Some ''=A1+A2'')
   \<and> cells_get (cells (snd (evaluateFormula arithmetic_evaluator ''A1'' ''10''
        \<lparr>cells = [(''A1'', formula_value '''' (Str ''5'')),
                   (''A2'', formula_value '''' (Str ''3'')),
                   (''A3'', formula_value ''=A1+A2'' (Num (Fin 8)))],
         rendered = []\<rparr>))) ''A3''
     = Some (formula_value ''=A1+A2'' (Num (Fin 13)))"
proof -
  have "isAscii ''=a1+a2''" "startsWith (trim ''=a1+a2'') ''=''"
    by code_simp+
  from evaluateFormula_stores_formula [OF this, of arithmetic_evaluator "''A3''"
      "\<lparr>cells = [(''A1'', formula_value '''' (Str ''5'')),
                 (''A2'', formula_value '''' (Str ''3''))], rendered = []\<rparr>"]
  have "map_option formula
     (cells_get (cells (snd (evaluateFormula arithmetic_evaluator ''A3'' ''=a1+a2''
        \<lparr>cells = [(''A1'', formula_value '''' (Str ''5'')),
                   (''A2'', formula_value '''' (Str ''3''))], rendered = []\<rparr>))) ''A3'')
     = Some (Some (toUpperCase (trim ''=a1+a2'')))"
    by blast
  moreover have "toUpperCase (trim ''=a1+a2'') = ''=A1+A2''"
    by code_simp
  moreover have "cells_get (cells (snd (evaluateFormula arithmetic_evaluator ''A1'' ''10''
        \<lparr>cells = [(''A1'', formula_value '''' (Str ''5'')),
                   (''A2'', formula_value '''' (Str ''3'')),
                   (''A3'', formula_value ''=A1+A2'' (Num (Fin 8)))],
         rendered = []\<rparr>))) ''A3''
     = Some (formula_value ''=A1+A2'' (Num (Fin 13)))"
    by code_simp
  ultimately show ?thesis
    by simp
qed

section \<open>Propagation\<close>

text \<open>
  Claim C7. An edit of cell \<open>a\<close> leaves the record of every other cell whose formula does
  not contain the text \<open>a\<close> exactly as it was, whatever that formula refers to: a cell
  that depends on \<open>a\<close> only through another cell is not re-evaluated.
\<close>

theorem evaluateFormula_single_level:
  assumes "cells_get (cells st) c = Some r" and "c \<noteq> a" and "\<not> contains_id r a"
  shows "cells_get (cells (snd (evaluateFormula ev a innerText st))) c = Some r"
proof -
  have frame: "cells_get (cells (snd (updateDependentCells ev a st'))) c = Some r"
    if "cells_get (cells st') c = Some r" for st'
    unfolding updateDependentCells_def using that assms(3) by (rule updateDependentCells_loop_frame)
  show ?thesis
  proof (cases "startsWith (toUpperCase (trim innerText)) ''=''")
    case False
    then show ?thesis
      using assms(1,2) by (simp add: evaluateFormula_def frame cells_get_set)
  next
    case True
    obtain v where "evaluateExpression ev (cells st) (substring1 (toUpperCase (trim innerText))) = Inr v"
      using evaluateExpression_total by blast
    with True show ?thesis
      using assms(1,2) by (simp add: evaluateFormula_def frame cells_get_set)
  qed
qed

text \<open>
  With \<open>A1 = 1\<close>, \<open>B1\<close> holding \<open>=A1+1\<close> (value 2) and \<open>C1\<close> holding \<open>=B1+1\<close> (value 3),
  committing \<open>10\<close> to \<open>A1\<close> re-evaluates \<open>B1\<close> to 11 and leaves \<open>C1\<close> at 3.
\<close>

theorem evaluateFormula_single_level_witness:
  "cells (snd (evaluateFormula arithmetic_evaluator ''A1'' ''10''
      \<lparr>cells = [(''A1'', formula_value '''' (Str ''1'')),
                 (''B1'', formula_value ''=A1+1'' (Num (Fin 2))),
                 (''C1'', formula_value ''=B1+1'' (Num (Fin 3)))],
       rendered = []\<rparr>))
     = [(''A1'', formula_value '''' (Str ''10'')),
        (''B1'', formula_value ''=A1+1'' (Num (Fin 11))),
        (''C1'', formula_value ''=B1+1'' (Num (Fin 3)))]
   \<and> cells_get (cells (snd (evaluateFormula arithmetic_evaluator ''A1'' ''10''
      \<lparr>cells = [(''A1'', formula_value '''' (Str ''1'')),
                 (''B1'', formula_value ''=A1+1'' (Num (Fin 2))),
                 (''C1'', formula_value ''=B1+1'' (Num (Fin 3)))],
       rendered = []\<rparr>))) ''C1''
     = Some (formula_value ''=B1+1'' (Num (Fin 3)))"
proof -
  let ?st = "\<lparr>cells = [(''A1'', formula_value '''' (Str ''1'')),
                 (''B1'', formula_value ''=A1+1'' (Num (Fin 2))),
                 (''C1'', formula_value ''=B1+1'' (Num (Fin 3)))],
       rendered = []\<rparr>"
  have "cells_get (cells ?st) ''C1'' = Some (formula_value ''=B1+1'' (Num (Fin 3)))"
    and "''C1'' \<noteq> ''A1''"
    and "\<not> contains_id (formula_value ''=B1+1'' (Num (Fin 3))) ''A1''"
    by code_simp+
  then have "cells_get (cells (snd (evaluateFormula arithmetic_evaluator ''A1'' ''10'' ?st))) ''C1''
      = Some (formula_value ''=B1+1'' (Num (Fin 3)))"
    by (rule evaluateFormula_single_level)
  moreover have "cells (snd (evaluateFormula arithmetic_evaluator ''A1'' ''10'' ?st))
     = [(''A1'', formula_value '''' (Str ''10'')),
        (''B1'', formula_value ''=A1+1'' (Num (Fin 11))),
        (''C1'', formula_value ''=B1+1'' (Num (Fin 3)))]"
    by code_simp
  ultimately show ?thesis
    by simp
qed

text \<open>
  Claim C4. In a well-formed table (distinct, well-formed cell ids, every record with
  a formula: the tables that \<open>script.js\<close> builds), a pass of \<open>updateDependentCells\<close> for
  the id \<open>u\<close> ends without an error and keeps the ids. It assigns \<open>innerText\<close> once for
  every cell whose stored formula contains \<open>u\<close>, in the order of the table, with the
  value the table then holds for the cell; that value is the value of the cell's
  formula, without its first character, in the table as the pass found it on reaching
  the cell.
\<close>

theorem updateDependentCells_propagates:
  assumes "well_formed (cells st)"
  shows "fst (updateDependentCells ev u st) = None
    \<and> Object_keys (cells (snd (updateDependentCells ev u st))) = Object_keys (cells st)
    \<and> rendered (snd (updateDependentCells ev u st)) =
        rendered st @
        map (\<lambda>k. (k, cellValue_value (cells (snd (updateDependentCells ev u st))) k))
          (dependents (cells st) u)
    \<and> distinct (dependents (cells st) u)
    \<and> (\<forall>ks1 k ks2 c f.
          Object_keys (cells st) = ks1 @ k # ks2 \<and> cells_get (cells st) k = Some c \<and>
          formula c = Some f \<and> str_includes f u \<longrightarrow>
          (\<exists>v. evaluateExpression ev (cells (snd (updateDependentCells_loop ev u ks1 st)))
                  (substring1 f) = Inr v \<and>
               cells_get (cells (snd (updateDependentCells ev u st))) k =
                 Some (formula_value f v)))"
proof -
  let ?ks = "Object_keys (cells st)"
  from assms have distinct: "distinct ?ks"
    and ids: "\<forall>k\<in>set ?ks. parses k \<and> has_formula (cells st) k"
    by (simp_all add: well_formed_def list_all_iff)
  have "fst (updateDependentCells ev u st) = None"
    unfolding updateDependentCells_def using ids by (rule updateDependentCells_loop_normal)
  moreover have "Object_keys (cells (snd (updateDependentCells ev u st))) = ?ks"
    unfolding updateDependentCells_def by (rule updateDependentCells_loop_keys)
  moreover have "rendered (snd (updateDependentCells ev u st)) =
      rendered st @
      map (\<lambda>k. (k, cellValue_value (cells (snd (updateDependentCells ev u st))) k))
        (dependents (cells st) u)"
    unfolding updateDependentCells_def dependents_def
    using distinct ids by (rule updateDependentCells_loop_rendered)
  moreover have "distinct (dependents (cells st) u)"
    using distinct by (simp add: dependents_def)
  moreover have "\<exists>v. evaluateExpression ev (cells (snd (updateDependentCells_loop ev u ks1 st)))
                  (substring1 f) = Inr v \<and>
               cells_get (cells (snd (updateDependentCells ev u st))) k = Some (formula_value f v)"
    if keys: "?ks = ks1 @ k # ks2" and c: "cells_get (cells st) k = Some c" "formula c = Some f"
      and u: "str_includes f u"
    for ks1 k ks2 c f
  proof -
    from distinct have d: "distinct (ks1 @ k # ks2)"
      unfolding keys .
    have i: "\<forall>k'\<in>set (ks1 @ k # ks2). parses k' \<and> has_formula (cells st) k'"
      unfolding keys [symmetric] using ids .
    show ?thesis
      unfolding updateDependentCells_def keys
      using d i c u by (rule updateDependentCells_loop_value)
  qed
  ultimately show ?thesis
    by blast
qed

text \<open>
  With \<open>A1 = 5\<close>, \<open>A2 = 3\<close> and \<open>A3\<close> holding \<open>=A1+A2\<close> (value 8), committing \<open>10\<close> to \<open>A1\<close>
  changes the value stored for \<open>A3\<close> to 13 and assigns 13 to the \<open>innerText\<close> of \<open>A3\<close>, once.
\<close>

theorem updateDependentCells_propagates_witness:
  "evaluateFormula arithmetic_evaluator ''A3'' ''=A1+A2''
      \<lparr>cells = [(''A1'', formula_value '''' (Str ''5'')),
                 (''A2'', formula_value '''' (Str ''3''))], rendered = []\<rparr>
     = (None, \<lparr>cells = [(''A1'', formula_value '''' (Str ''5'')),
                        (''A2'', formula_value '''' (Str ''3'')),
                        (''A3'', formula_value ''=A1+A2'' (Num (Fin 8)))],
               rendered = [(''A3'', Num (Fin 8))]\<rparr>)
   \<and> evaluateFormula arithmetic_evaluator ''A1'' ''10''
      \<lparr>cells = [(''A1'', formula_value '''' (Str ''5'')),
                 (''A2'', formula_value '''' (Str ''3'')),
                 (''A3'', formula_value ''=A1+A2'' (Num (Fin 8)))], rendered = []\<rparr>
     = (None, \<lparr>cells = [(''A1'', formula_value '''' (Str ''10'')),
                        (''A2'', formula_value '''' (Str ''3'')),
                        (''A3'', formula_value ''=A1+A2'' (Num (Fin 13)))],
               rendered = [(''A3'', Num (Fin 13))]\<rparr>)
   \<and> rendered (snd (updateDependentCells arithmetic_evaluator ''A1''
      \<lparr>cells = [(''A1'', formula_value '''' (Str ''10'')),
                 (''A2'', formula_value '''' (Str ''3'')),
                 (''A3'', formula_value ''=A1+A2'' (Num (Fin 8)))], rendered = []\<rparr>))
     = [(''A3'', Num (Fin 13))]"
proof -
  let ?st = "\<lparr>cells = [(''A1'', formula_value '''' (Str ''10'')),
                 (''A2'', formula_value '''' (Str ''3'')),
                 (''A3'', formula_value ''=A1+A2'' (Num (Fin 8)))], rendered = []\<rparr>"
  have "well_formed (cells ?st)"
    by code_simp
  from updateDependentCells_propagates [OF this, of arithmetic_evaluator "''A1''"]
  have "rendered (snd (updateDependentCells arithmetic_evaluator ''A1'' ?st)) =
      rendered ?st @
      map (\<lambda>k. (k, cellValue_value (cells (snd (updateDependentCells arithmetic_evaluator ''A1'' ?st))) k))
        (dependents (cells ?st) ''A1'')"
    by blast
  moreover have "dependents (cells ?st) ''A1'' = [''A3'']"
    by code_simp
  moreover have "cellValue_value (cells (snd (updateDependentCells arithmetic_evaluator ''A1'' ?st)))
      ''A3'' = Num (Fin 13)"
    by code_simp
  ultimately have notified: "rendered (snd (updateDependentCells arithmetic_evaluator ''A1'' ?st))
      = [(''A3'', Num (Fin 13))]"
    by simp
  have "evaluateFormula arithmetic_evaluator ''A3'' ''=A1+A2''
      \<lparr>cells = [(''A1'', formula_value '''' (Str ''5'')),
                 (''A2'', formula_value '''' (Str ''3''))], rendered = []\<rparr>
     = (None, \<lparr>cells = [(''A1'', formula_value '''' (Str ''5'')),
                        (''A2'', formula_value '''' (Str ''3'')),
                        (''A3'', formula_value ''=A1+A2'' (Num (Fin 8)))],
               rendered = [(''A3'', Num (Fin 8))]\<rparr>)"
    by code_simp
  moreover have "evaluateFormula arithmetic_evaluator ''A1'' ''10''
      \<lparr>cells = [(''A1'', formula_value '''' (Str ''5'')),
                 (''A2'', formula_value '''' (Str ''3'')),
                 (''A3'', formula_value ''=A1+A2'' (Num (Fin 8)))], rendered = []\<rparr>
     = (None, \<lparr>cells = [(''A1'', formula_value '''' (Str ''10'')),
                        (''A2'', formula_value '''' (Str ''3'')),
                        (''A3'', formula_value ''=A1+A2'' (Num (Fin 13)))],
               rendered = [(''A3'', Num (Fin 13))]\<rparr>)"
    by code_simp
  ultimately show ?thesis
    using notified by simp
qed

end
